theory Spec2Isabelle
  imports Main "HOL-Library.Multiset" "HOL-Library.DAList"
begin

section \<open>Data model of the grid world (scripts/generate_data.py)\<close>

text \<open>
  The generation script reads situations of the gSCAN grid world. A position is a
  (row, column) pair, an object has a size, a colour and a shape, and a placed object
  is an object at a position. Python integers are unbounded, hence \<open>int\<close>; words,
  colours and shapes are Python strings.
\<close>

record position =
  row :: int
  column :: int

record gobject =
  osize :: int
  color :: string
  shape :: string

record positioned_object =
  object :: gobject
  position :: position

text \<open>
  A situation as the oracle reads it: the agent, the designated target object and
  the list of placed objects, in the order of the situation's representation.
\<close>

record situation =
  agent_pos :: position
  target_object :: positioned_object
  placed_objects :: "positioned_object list"

text \<open>The Python exceptions that the modelled functions can raise.\<close>

datatype py_error = AssertionError | KeyError | IndexError | ValueError | OverflowError

section \<open>Prohibition rules of the generalisation splits\<close>

text \<open>
  \<^verbatim>\<open>is_prohibited_action_adverb_combo\<close>: split H, pulling while spinning.
\<close>

definition is_prohibited_action_adverb_combo :: "string list \<Rightarrow> string list \<Rightarrow> string option" where
  "is_prohibited_action_adverb_combo action_words adverb_words =
     (if ''pull'' \<in> set action_words \<and> ''while spinning'' \<in> set adverb_words
      then Some ''H'' else None)"

text \<open>
  \<^verbatim>\<open>is_prohibited_description(agent_pos, target_object, description_words,
  allow_demonstration_splits=None)\<close>. The optional last argument is \<open>None\<close> or a list
  of split letters; \<^verbatim>\<open>allow_demonstration_splits or []\<close> turns \<open>None\<close> into the
  empty list. The five tests are taken in the order of the source, each with its own
  waiver test, and the first that holds returns its letter.
\<close>

definition is_prohibited_description ::
  "position \<Rightarrow> positioned_object \<Rightarrow> string list \<Rightarrow> string list option \<Rightarrow> string option" where
  "is_prohibited_description agent tgt description_words allow_demonstration_splits =
     (let allowed = (case allow_demonstration_splits of None \<Rightarrow> [] | Some l \<Rightarrow> l) in
      if ''yellow'' \<in> set description_words \<and> ''square'' \<in> set description_words
         \<and> ''B'' \<notin> set allowed
      then Some ''B''
      else if color (object tgt) = ''red'' \<and> shape (object tgt) = ''square''
         \<and> ''C'' \<notin> set allowed
      then Some ''C''
      else if row agent < row (position tgt) \<and> column agent > column (position tgt)
         \<and> ''D'' \<notin> set allowed
      then Some ''D''
      else if ''small'' \<in> set description_words \<and> osize (object tgt) = 2
         \<and> shape (object tgt) = ''circle'' \<and> ''E'' \<notin> set allowed
      then Some ''E''
      else if ''push'' \<in> set description_words \<and> osize (object tgt) = 3
         \<and> shape (object tgt) = ''square'' \<and> ''F'' \<notin> set allowed
      then Some ''F''
      else None)"

text \<open>
  The rules as the specification words them, one condition per letter, in the order
  B, C, D, E, F. \<open>first_matching\<close> returns the letter of the first rule of a list
  whose condition holds.
\<close>

definition prohibition_rules ::
  "position \<Rightarrow> positioned_object \<Rightarrow> string list \<Rightarrow> (string \<times> bool) list" where
  "prohibition_rules agent tgt description_words =
     [(''B'', ''yellow'' \<in> set description_words \<and> ''square'' \<in> set description_words),
      (''C'', color (object tgt) = ''red'' \<and> shape (object tgt) = ''square''),
      (''D'', row agent < row (position tgt) \<and> column agent > column (position tgt)),
      (''E'', ''small'' \<in> set description_words \<and> osize (object tgt) = 2
              \<and> shape (object tgt) = ''circle''),
      (''F'', ''push'' \<in> set description_words \<and> osize (object tgt) = 3
              \<and> shape (object tgt) = ''square'')]"

fun first_matching :: "(string \<times> bool) list \<Rightarrow> string option" where
  "first_matching [] = None"
| "first_matching ((letter, holds) # rules) = (if holds then Some letter else first_matching rules)"

section \<open>The oracle generator of support instructions\<close>

text \<open>
  A description option is a pair of descriptor words and the placed object they
  describe. The two constant tables of the script are lists of token lists; the
  adverbs are single tokens that contain a space.
\<close>

type_synonym description_option = "string list \<times> positioned_object"

definition ALL_ACTION_OPTIONS :: "string list list" where
  "ALL_ACTION_OPTIONS = [[''walk'', ''to''], [''push''], [''pull'']]"

definition ALL_ADVERB_OPTIONS :: "string list list" where
  "ALL_ADVERB_OPTIONS = [[''while spinning''], [''while zigzagging''], [''hesitantly''], []]"

text \<open>
  Python's \<^verbatim>\<open>xs[:n]\<close>: everything when \<open>n\<close> is \<open>None\<close>, the first \<open>n\<close> items when
  \<open>n \<ge> 0\<close>, and all but the last \<open>-n\<close> items when \<open>n\<close> is negative.
\<close>

definition py_slice_to :: "'a list \<Rightarrow> int option \<Rightarrow> 'a list" where
  "py_slice_to xs n =
     (case n of
        None \<Rightarrow> xs
      | Some k \<Rightarrow> if k < 0 then take (nat (int (length xs) + k)) xs else take (nat k) xs)"

text \<open>
  \<^verbatim>\<open>generate_description_words_options\<close>. The two nested \<^verbatim>\<open>defaultdict\<close>s map a
  shape and a colour to the largest and the smallest size seen, starting from the
  defaults 0 and 10; they are total functions updated object by object.
\<close>

definition object_types_max_sizes :: "positioned_object list \<Rightarrow> string \<Rightarrow> string \<Rightarrow> int" where
  "object_types_max_sizes objs =
     fold (\<lambda>po m. m(shape (object po) := (m (shape (object po)))
                      (color (object po) :=
                         max (m (shape (object po)) (color (object po))) (osize (object po)))))
          objs (\<lambda>_ _. 0)"

definition object_types_min_sizes :: "positioned_object list \<Rightarrow> string \<Rightarrow> string \<Rightarrow> int" where
  "object_types_min_sizes objs =
     fold (\<lambda>po m. m(shape (object po) := (m (shape (object po)))
                      (color (object po) :=
                         min (m (shape (object po)) (color (object po))) (osize (object po)))))
          objs (\<lambda>_ _. 10)"

definition generate_description_words_options ::
  "situation \<Rightarrow> string list \<Rightarrow> description_option list" where
  "generate_description_words_options s description_words =
     (let maxs = object_types_max_sizes (placed_objects s);
          mins = object_types_min_sizes (placed_objects s)
      in (description_words, target_object s) #
         map (\<lambda>po.
                ((if osize (object po) = maxs (shape (object po)) (color (object po))
                  then [''big'']
                  else if osize (object po) = mins (shape (object po)) (color (object po))
                  then [''small'']
                  else [])
                 @ [color (object po), shape (object po)], po))
             (filter (\<lambda>po. position po \<noteq> position (target_object s)) (placed_objects s)))"

text \<open>
  \<^verbatim>\<open>sort_description_words_by_query_match\<close>. The three modes are the keys
  \<^verbatim>\<open>"color"\<close>, \<^verbatim>\<open>"object"\<close> and \<^verbatim>\<open>"size"\<close> of the script's dictionaries, which
  become functions on the mode. For each mode, the flag list says which options share
  a word of that kind with the query, and the index array lists all option indices
  sorted on the flag in descending order; Python's \<^verbatim>\<open>sorted(..., reverse=True)\<close> is
  stable, so the flagged indices come first and both groups keep their order.
\<close>

datatype mode = Color | Object | Size

fun next_mode :: "mode \<Rightarrow> mode" where
  "next_mode Color = Object"
| "next_mode Object = Size"
| "next_mode Size = Color"

definition mode_words :: "string list \<Rightarrow> string list \<Rightarrow> mode \<Rightarrow> string list" where
  "mode_words vocabulary_colors vocabulary_nouns m =
     (case m of Color \<Rightarrow> vocabulary_colors | Object \<Rightarrow> vocabulary_nouns
      | Size \<Rightarrow> [''big'', ''small''])"

definition option_matches ::
  "description_option list \<Rightarrow> string list \<Rightarrow> string list \<Rightarrow> string list \<Rightarrow> mode \<Rightarrow> bool list" where
  "option_matches description_words_options query_description_words vocabulary_colors
       vocabulary_nouns m =
     map (\<lambda>dw. \<exists>c \<in> set (filter (\<lambda>w. w \<in> set (mode_words vocabulary_colors vocabulary_nouns m))
                                  (fst dw)).
                  c \<in> set query_description_words)
         description_words_options"

definition sorted_reverse_by_flag :: "bool list \<Rightarrow> nat list \<Rightarrow> nat list" where
  "sorted_reverse_by_flag flags indices =
     filter (\<lambda>i. flags ! i) indices @ filter (\<lambda>i. \<not> flags ! i) indices"

definition indices_indexes_array ::
  "description_option list \<Rightarrow> string list \<Rightarrow> string list \<Rightarrow> string list \<Rightarrow> mode \<Rightarrow> nat list" where
  "indices_indexes_array description_words_options query_description_words vocabulary_colors
       vocabulary_nouns m =
     sorted_reverse_by_flag
       (option_matches description_words_options query_description_words vocabulary_colors
          vocabulary_nouns m)
       [0 ..< length description_words_options]"

text \<open>
  The \<^verbatim>\<open>while\<close> loop of the generator, returning the indices of the options it yields
  in order. Its state is the cursor of each mode, the set of indices not yet yielded and
  the current mode. It stops when every cursor is at the end of its array.
\<close>

definition round_robin_measure :: "(mode \<Rightarrow> nat list) \<Rightarrow> (mode \<Rightarrow> nat) \<Rightarrow> mode \<Rightarrow> nat" where
  "round_robin_measure arr idx m =
     3 * ((length (arr Color) - idx Color) + (length (arr Object) - idx Object)
          + (length (arr Size) - idx Size))
     + (if idx m < length (arr m) then 0
        else if idx (next_mode m) < length (arr (next_mode m)) then 1 else 2)"

function round_robin ::
  "(mode \<Rightarrow> nat list) \<Rightarrow> (mode \<Rightarrow> bool list) \<Rightarrow> (mode \<Rightarrow> nat) \<Rightarrow> nat set \<Rightarrow> mode \<Rightarrow> nat list" where
  "round_robin arr matches indices_indexes option_indices_set mode =
     (if indices_indexes Color < length (arr Color)
         \<or> indices_indexes Object < length (arr Object)
         \<or> indices_indexes Size < length (arr Size)
      then
        if indices_indexes mode \<ge> length (arr mode)
        then round_robin arr matches indices_indexes option_indices_set (next_mode mode)
        else
          let possible_option = arr mode ! indices_indexes mode in
          if possible_option \<notin> option_indices_set \<or> \<not> matches mode ! possible_option
          then round_robin arr matches
                 (indices_indexes(mode := indices_indexes mode + 1)) option_indices_set mode
          else possible_option #
               round_robin arr matches
                 (indices_indexes(mode := indices_indexes mode + 1))
                 (option_indices_set - {possible_option}) (next_mode mode)
      else [])"
  by pat_completeness auto
termination
proof (relation "measure (\<lambda>(arr, mt, idx, s, m). round_robin_measure arr idx m)", goal_cases)
  case 1
  then show ?case by simp
next
  case (2 arr mt idx s m)
  then show ?case by (cases m) (auto simp: round_robin_measure_def)
next
  case (3 arr mt idx s m p)
  then show ?case by (cases m) (auto simp: round_robin_measure_def)
next
  case (4 arr mt idx s m p)
  then show ?case by (cases m) (auto simp: round_robin_measure_def)
qed

declare round_robin.simps [simp del]

definition sorted_option_indices ::
  "description_option list \<Rightarrow> string list \<Rightarrow> string list \<Rightarrow> string list \<Rightarrow> nat list" where
  "sorted_option_indices description_words_options query_description_words vocabulary_colors
       vocabulary_nouns =
     round_robin
       (indices_indexes_array description_words_options query_description_words
          vocabulary_colors vocabulary_nouns)
       (option_matches description_words_options query_description_words
          vocabulary_colors vocabulary_nouns)
       (\<lambda>_. 0) {0 ..< length description_words_options} Color"

definition sort_description_words_by_query_match ::
  "description_option list \<Rightarrow> string list \<Rightarrow> string list \<Rightarrow> string list
     \<Rightarrow> description_option list" where
  "sort_description_words_by_query_match description_words_options query_description_words
       vocabulary_colors vocabulary_nouns =
     map (\<lambda>i. description_words_options ! i)
       (sorted_option_indices description_words_options query_description_words
          vocabulary_colors vocabulary_nouns)"

text \<open>
  \<^verbatim>\<open>generate_limited_adverb_verb_combos\<close>: the pairs of \<^verbatim>\<open>itertools.product\<close>
  whose adverb or whose verb is in the instruction. An empty adverb option counts as
  in the instruction exactly when the instruction has no adverb.
\<close>

definition generate_limited_adverb_verb_combos ::
  "string list list \<Rightarrow> string list list \<Rightarrow> string list \<Rightarrow> string list
     \<Rightarrow> (string list \<times> string list) list" where
  "generate_limited_adverb_verb_combos possible_verbs possible_adverbs
       verb_words_in_instruction adverb_words_in_instruction =
     filter (\<lambda>(possible_verb, possible_adverb).
               let verb_is_in_instruction =
                     list_all (\<lambda>w. w \<in> set verb_words_in_instruction) possible_verb;
                   adverb_is_in_instruction =
                     ((possible_adverb \<noteq> []
                        \<and> list_all (\<lambda>w. w \<in> set adverb_words_in_instruction) possible_adverb)
                      \<or> (adverb_words_in_instruction = [] \<and> possible_adverb = []))
               in adverb_is_in_instruction \<or> verb_is_in_instruction)
            (List.product possible_verbs possible_adverbs)"

text \<open>
  \<^verbatim>\<open>generate_relevant_instructions_gscan_oracle\<close>, stage by stage. First the words
  of the query are sorted into verbs, articles, descriptors and adverbs.
\<close>

definition action_words_of :: "string list \<Rightarrow> string list" where
  "action_words_of query_instruction =
     filter (\<lambda>w. w \<in> set [''walk'', ''to'', ''push'', ''pull'']) query_instruction"

definition article_words_of :: "string list \<Rightarrow> string list" where
  "article_words_of query_instruction = filter (\<lambda>w. w \<in> set [''a'']) query_instruction"

definition description_words_of :: "string list \<Rightarrow> string list \<Rightarrow> string list \<Rightarrow> string list" where
  "description_words_of vocabulary_colors vocabulary_nouns query_instruction =
     filter (\<lambda>w. w \<in> set (vocabulary_colors @ vocabulary_nouns @ [''big'', ''small'']))
       query_instruction"

definition adverb_words_of :: "string list \<Rightarrow> string list" where
  "adverb_words_of query_instruction =
     filter (\<lambda>w. w \<in> set [''while spinning'', ''while zigzagging'', ''hesitantly'', ''cautiously''])
       query_instruction"

definition real_adverb_options :: "string list \<Rightarrow> string list list" where
  "real_adverb_options query_instruction =
     (if ''cautiously'' \<in> set query_instruction
      then ALL_ADVERB_OPTIONS @ [[''cautiously'']] else ALL_ADVERB_OPTIONS)"

definition adverb_verb_combos :: "string list \<Rightarrow> bool \<Rightarrow> (string list \<times> string list) list" where
  "adverb_verb_combos query_instruction limit_verb_adverb =
     (if \<not> limit_verb_adverb
      then List.product ALL_ACTION_OPTIONS (real_adverb_options query_instruction)
      else generate_limited_adverb_verb_combos ALL_ACTION_OPTIONS
             (real_adverb_options query_instruction)
             (action_words_of query_instruction) (adverb_words_of query_instruction))"

text \<open>
  The alternatives to the target, reordered and then filtered by the prohibition rules
  with the waivers of the split (unless any example is allowed).
\<close>

definition filtered_sorted_other_description_words ::
  "string list \<Rightarrow> situation \<Rightarrow> string list \<Rightarrow> string list \<Rightarrow> string list option \<Rightarrow> bool
     \<Rightarrow> description_option list" where
  "filtered_sorted_other_description_words query_instruction s vocabulary_colors
       vocabulary_nouns allow_demonstration_splits allow_any_example =
     (let description_words =
            description_words_of vocabulary_colors vocabulary_nouns query_instruction;
          description_words_options = generate_description_words_options s description_words;
          target_description_words = take 1 description_words_options;
          other_description_words = drop 1 description_words_options;
          sorted_other_description_words =
            sort_description_words_by_query_match other_description_words
              (fst (hd target_description_words)) vocabulary_colors vocabulary_nouns
      in if allow_any_example then sorted_other_description_words
         else filter (\<lambda>dw. is_prohibited_description (agent_pos s) (snd dw) (fst dw)
                               allow_demonstration_splits = None)
                sorted_other_description_words)"

text \<open>
  The target's own option: dropped when an alternative is left and either the target
  is not to be demonstrated or it is prohibited. This call of
  \<^verbatim>\<open>is_prohibited_description\<close> passes no waiver list.
\<close>

definition target_description_words ::
  "string list \<Rightarrow> situation \<Rightarrow> string list \<Rightarrow> string list \<Rightarrow> bool \<Rightarrow> string list option
     \<Rightarrow> bool \<Rightarrow> description_option list" where
  "target_description_words query_instruction s vocabulary_colors vocabulary_nouns
       demonstrate_target allow_demonstration_splits allow_any_example =
     (let description_words =
            description_words_of vocabulary_colors vocabulary_nouns query_instruction;
          target_description_words =
            take 1 (generate_description_words_options s description_words)
      in if filtered_sorted_other_description_words query_instruction s vocabulary_colors
              vocabulary_nouns allow_demonstration_splits allow_any_example \<noteq> []
         then if \<not> demonstrate_target then []
              else if \<not> allow_any_example
                      \<and> is_prohibited_description (agent_pos s)
                            (snd (hd target_description_words))
                            (fst (hd target_description_words)) None \<noteq> None
              then []
              else target_description_words
         else target_description_words)"

definition candidate_description_words_options ::
  "string list \<Rightarrow> situation \<Rightarrow> string list \<Rightarrow> string list \<Rightarrow> bool \<Rightarrow> string list option
     \<Rightarrow> bool \<Rightarrow> description_option list" where
  "candidate_description_words_options query_instruction s vocabulary_colors vocabulary_nouns
       demonstrate_target allow_demonstration_splits allow_any_example =
     target_description_words query_instruction s vocabulary_colors vocabulary_nouns
       demonstrate_target allow_demonstration_splits allow_any_example
     @ filtered_sorted_other_description_words query_instruction s vocabulary_colors
         vocabulary_nouns allow_demonstration_splits allow_any_example"

text \<open>
  The double loop over the options and the verb and adverb combinations. A combination
  of split H is skipped unless any example is allowed, and so is an instruction equal
  to the query.
\<close>

definition support_instructions ::
  "string list \<Rightarrow> description_option list \<Rightarrow> (string list \<times> string list) list \<Rightarrow> bool
     \<Rightarrow> (string list \<times> positioned_object) list" where
  "support_instructions query_instruction description_words_options combos allow_any_example =
     concat (map (\<lambda>(description_words, tgt).
               map (\<lambda>(action_option, adverb_option).
                      (action_option @ article_words_of query_instruction @ description_words
                         @ adverb_option, tgt))
                 (filter (\<lambda>(action_option, adverb_option).
                            \<not> (is_prohibited_action_adverb_combo action_option adverb_option \<noteq> None
                                \<and> \<not> allow_any_example)
                            \<and> action_option @ article_words_of query_instruction
                                @ description_words @ adverb_option \<noteq> query_instruction)
                    combos))
             description_words_options)"

text \<open>
  The whole function. \<open>permutation n\<close> stands for the outcome of
  \<^verbatim>\<open>np.random.permutation(n)\<close>, some arrangement of \<open>0, ..., n - 1\<close>. The function
  returns the empty list when nothing can be demonstrated and no waiver is configured,
  and fails its assertion when nothing can be demonstrated under a waiver.
\<close>

definition generate_relevant_instructions_gscan_oracle ::
  "(nat \<Rightarrow> nat list) \<Rightarrow> string list \<Rightarrow> situation \<Rightarrow> string list \<Rightarrow> string list \<Rightarrow> int option
     \<Rightarrow> bool \<Rightarrow> string list option \<Rightarrow> bool \<Rightarrow> int \<Rightarrow> bool \<Rightarrow> bool
     \<Rightarrow> py_error + (string list \<times> positioned_object) list" where
  "generate_relevant_instructions_gscan_oracle permutation query_instruction s
       vocabulary_colors vocabulary_nouns n_description_options demonstrate_target
       allow_demonstration_splits allow_any_example num_demos pick_random limit_verb_adverb =
     (let description_words_options =
            py_slice_to
              (candidate_description_words_options query_instruction s vocabulary_colors
                 vocabulary_nouns demonstrate_target allow_demonstration_splits
                 allow_any_example)
              n_description_options;
          supports =
            support_instructions query_instruction description_words_options
              (adverb_verb_combos query_instruction limit_verb_adverb) allow_any_example
      in if (allow_demonstration_splits = None \<or> allow_demonstration_splits = Some [])
            \<and> supports = []
         then Inr []
         else if supports = [] then Inl AssertionError
         else if pick_random
         then Inr (map (\<lambda>i. supports ! i)
                     (py_slice_to (permutation (length supports)) (Some num_demos)))
         else Inr (py_slice_to supports (Some num_demos)))"

section \<open>Batching of the generated examples\<close>

text \<open>
  \<^verbatim>\<open>batched(iterable, n)\<close> raises ValueError when \<open>n < 1\<close>; otherwise it takes
  slices of \<open>n\<close> items off the iterator (\<^verbatim>\<open>itertools.islice\<close>) and yields each
  non-empty slice, stopping at the first empty one. The finite stream is a list; the
  iterator after a slice is the list without its first \<open>n\<close> items.
\<close>

function batched_loop :: "'a list \<Rightarrow> nat \<Rightarrow> 'a list list" where
  "batched_loop it n =
     (let batch = take n it in
      if batch = [] then [] else batch # batched_loop (drop n it) n)"
  by pat_completeness auto
termination
  by (relation "measure (\<lambda>(it, n). length it)") auto

declare batched_loop.simps [simp del]

definition batched :: "'a list \<Rightarrow> int \<Rightarrow> py_error + 'a list list" where
  "batched iterable n = (if n < 1 then Inl ValueError else Inr (batched_loop iterable (nat n)))"

section \<open>Examples and the command index\<close>

text \<open>
  An example of the corpus: its command and its action sequence are comma-joined token
  strings, as in the dataset file.
\<close>

record example =
  command :: string
  target_commands :: string
  situation_of :: situation

text \<open>
  Python's \<^verbatim>\<open>s.split(",")\<close> and \<^verbatim>\<open>" ".join(words)\<close>. Splitting never returns
  the empty list, so the first case of the inner \<open>case\<close> is never taken.
\<close>

fun split_comma :: "string \<Rightarrow> string list" where
  "split_comma [] = [[]]"
| "split_comma (c # cs) =
     (if c = CHR '','' then [] # split_comma cs
      else (case split_comma cs of [] \<Rightarrow> [[c]] | w # ws \<Rightarrow> (c # w) # ws))"

fun join_space :: "string list \<Rightarrow> string" where
  "join_space [] = []"
| "join_space [w] = w"
| "join_space (w # ws) = w @ '' '' @ join_space ws"

definition parse_command_repr :: "string \<Rightarrow> string list" where
  "parse_command_repr command_repr = split_comma command_repr"

definition command_key_of :: "example \<Rightarrow> string" where
  "command_key_of ex = join_space (split_comma (command ex))"

text \<open>
  The index builders enumerate the examples front to back and append each index to the
  bucket of the example's key, in a \<^verbatim>\<open>defaultdict(list)\<close>: a missing bucket counts as
  empty. \<^verbatim>\<open>sort_indices_by_command\<close> keys on the command with spaces for commas.
\<close>

definition append_index :: "'k \<Rightarrow> nat \<Rightarrow> ('k \<rightharpoonup> nat list) \<Rightarrow> ('k \<rightharpoonup> nat list)" where
  "append_index key index m =
     m(key \<mapsto> (case m key of None \<Rightarrow> [] | Some l \<Rightarrow> l) @ [index])"

definition sort_indices_by :: "('e \<Rightarrow> 'k) \<Rightarrow> 'e list \<Rightarrow> ('k \<rightharpoonup> nat list)" where
  "sort_indices_by key_of examples =
     fold (\<lambda>(index, ex). append_index (key_of ex) index) (enumerate 0 examples) Map.empty"

definition sort_indices_by_command :: "example list \<Rightarrow> (string \<rightharpoonup> nat list)" where
  "sort_indices_by_command examples = sort_indices_by command_key_of examples"

text \<open>
  \<^verbatim>\<open>bisect.bisect_left(a, x)\<close> of the Python library, with its defaults \<open>lo = 0\<close> and
  \<open>hi = len(a)\<close>, and \<^verbatim>\<open>find_in_sorted_list\<close> on top of it.
\<close>

function bisect_left_loop :: "nat list \<Rightarrow> nat \<Rightarrow> nat \<Rightarrow> nat \<Rightarrow> nat" where
  "bisect_left_loop a x lo hi =
     (if lo < hi
      then let mid = (lo + hi) div 2 in
           if a ! mid < x then bisect_left_loop a x (mid + 1) hi
           else bisect_left_loop a x lo mid
      else lo)"
  by pat_completeness auto
termination
  by (relation "measure (\<lambda>(a, x, lo, hi). hi - lo)") auto

declare bisect_left_loop.simps [simp del]

definition bisect_left :: "nat list \<Rightarrow> nat \<Rightarrow> nat" where
  "bisect_left a x = bisect_left_loop a x 0 (length a)"

definition find_in_sorted_list :: "nat list \<Rightarrow> nat \<Rightarrow> bool" where
  "find_in_sorted_list a x = (let i = bisect_left a x in i \<noteq> length a \<and> a ! i = x)"

text \<open>
  The exclusion step shared by the lookup strategies,
  \<^verbatim>\<open>[p for p in possible_demos if not find_in_sorted_list(
  sorted_example_indices_by_command[command_key], p)]\<close>. The index is a plain
  dictionary here: the lookup raises KeyError for a missing key, once there is a
  candidate to test.
\<close>

definition exclude_same_command ::
  "(string \<rightharpoonup> nat list) \<Rightarrow> string \<Rightarrow> nat list \<Rightarrow> py_error + nat list" where
  "exclude_same_command sorted_example_indices_by_command command_key possible_demos =
     (if possible_demos = [] then Inr []
      else (case sorted_example_indices_by_command command_key of
              None \<Rightarrow> Inl KeyError
            | Some bucket \<Rightarrow>
                Inr (filter (\<lambda>p. \<not> find_in_sorted_list bucket p) possible_demos)))"

text \<open>The bucket of a key, empty when the key is missing.\<close>

definition bucket_of :: "('k \<rightharpoonup> nat list) \<Rightarrow> 'k \<Rightarrow> nat list" where
  "bucket_of m k = (case m k of None \<Rightarrow> [] | Some l \<Rightarrow> l)"

section \<open>Retrieval strategies that look examples up in the corpus\<close>

text \<open>
  \<^verbatim>\<open>np.random.choice(a, size=n, replace=True)\<close> raises ValueError for a negative size
  and for an empty population unless no sample is taken; otherwise each of the \<open>n\<close>
  items is the element at some index of the population. \<open>draw i\<close> stands for the random
  number behind the \<open>i\<close>-th item, reduced to an index of the population.
\<close>

definition random_choice_replace :: "(nat \<Rightarrow> nat) \<Rightarrow> 'a list \<Rightarrow> int \<Rightarrow> py_error + 'a list" where
  "random_choice_replace draw a size_arg =
     (if size_arg < 0 then Inl ValueError
      else if a = [] \<and> size_arg \<noteq> 0 then Inl ValueError
      else Inr (map (\<lambda>i. a ! (draw i mod length a)) [0 ..< nat size_arg]))"

text \<open>
  With \<^verbatim>\<open>replace=False\<close> the sample is the start of a random arrangement of the
  population, and a sample larger than the population raises ValueError.
  \<open>permutation n\<close> stands for the arrangement of the indices \<open>0, ..., n - 1\<close>.
\<close>

definition random_choice_no_replace :: "(nat \<Rightarrow> nat list) \<Rightarrow> 'a list \<Rightarrow> int \<Rightarrow> py_error + 'a list" where
  "random_choice_no_replace permutation a size_arg =
     (if size_arg < 0 then Inl ValueError
      else if a = [] \<and> size_arg \<noteq> 0 then Inl ValueError
      else if int (length a) < size_arg then Inl ValueError
      else Inr (map (\<lambda>i. a ! i) (take (nat size_arg) (permutation (length a)))))"

text \<open>
  \<^verbatim>\<open>sort_indices_by_target_positions\<close>: the nested \<^verbatim>\<open>defaultdict\<close> keyed by the
  target's column and then its row is a map on the pair, read with \<open>bucket_of\<close>.
\<close>

definition sort_indices_by_target_positions :: "example list \<Rightarrow> (int \<times> int \<rightharpoonup> nat list)" where
  "sort_indices_by_target_positions examples =
     sort_indices_by (\<lambda>ex. (column (position (target_object (situation_of ex))),
                              row (position (target_object (situation_of ex))))) examples"

text \<open>
  The loop over the sampled indices reads \<^verbatim>\<open>train_examples[example_idx]\<close>, which
  raises IndexError out of range, and appends the parsed command, the parsed action
  sequence and the situation of each example to the three result lists.
\<close>

fun lookup_examples :: "example list \<Rightarrow> nat list \<Rightarrow> py_error + example list" where
  "lookup_examples train_examples [] = Inr []"
| "lookup_examples train_examples (example_idx # rest) =
     (if example_idx < length train_examples
      then (case lookup_examples train_examples rest of
              Inl e \<Rightarrow> Inl e
            | Inr exs \<Rightarrow> Inr (train_examples ! example_idx # exs))
      else Inl IndexError)"

definition supports_of_examples ::
  "example list \<Rightarrow> string list list \<times> string list list \<times> situation list" where
  "supports_of_examples relevant_examples =
     (map (\<lambda>relevant_example. parse_command_repr (command relevant_example)) relevant_examples,
      map (\<lambda>relevant_example. parse_command_repr (target_commands relevant_example))
        relevant_examples,
      map situation_of relevant_examples)"

text \<open>
  \<^verbatim>\<open>find_supports_with_any_target_object_in_same_position\<close>: the candidates are the
  bucket of the target's position without the examples of the query's command text,
  and \<^verbatim>\<open>min(len(possible_demos), num_demos)\<close> of them are sampled with replacement.
\<close>

definition find_supports_with_any_target_object_in_same_position ::
  "(nat \<Rightarrow> nat) \<Rightarrow> string list \<Rightarrow> situation
     \<Rightarrow> (int \<times> int \<rightharpoonup> nat list) \<times> (string \<rightharpoonup> nat list) \<times> example list \<Rightarrow> int
     \<Rightarrow> py_error + (string list list \<times> string list list \<times> situation list)" where
  "find_supports_with_any_target_object_in_same_position draw command_words s payload num_demos =
     (case payload of
        (sorted_example_indices_by_target_x_y, sorted_example_indices_by_command,
         train_examples) \<Rightarrow>
        let x_pos = column (position (target_object s));
            y_pos = row (position (target_object s));
            command_key = join_space command_words
        in case exclude_same_command sorted_example_indices_by_command command_key
                  (bucket_of sorted_example_indices_by_target_x_y (x_pos, y_pos)) of
             Inl e \<Rightarrow> Inl e
           | Inr possible_demos \<Rightarrow>
               (case random_choice_replace draw possible_demos
                       (min (int (length possible_demos)) num_demos) of
                  Inl e \<Rightarrow> Inl e
                | Inr relevant_demos \<Rightarrow>
                    (case lookup_examples train_examples relevant_demos of
                       Inl e \<Rightarrow> Inl e
                     | Inr relevant_examples \<Rightarrow> Inr (supports_of_examples relevant_examples))))"

text \<open>
  \<^verbatim>\<open>generate_random_instructions_find_support_in_any_layout\<close>. The keys of the index
  other than the query's are sampled without replacement; \<open>key_order\<close> is the order in
  which Python iterates over the set of keys. Each sampled key is a string, and the loop
  joins it with spaces again, \<^verbatim>\<open>" ".join(support_instruction_command)\<close>, which puts a
  space between any two characters of the string. When the result is not a key of the
  index the loop goes on to the next key; otherwise one example of the bucket is drawn
  with \<^verbatim>\<open>np.random.choice(bucket)\<close>.
\<close>

definition random_choice_one :: "nat \<Rightarrow> 'a list \<Rightarrow> py_error + 'a" where
  "random_choice_one drawn a = (if a = [] then Inl ValueError else Inr (a ! (drawn mod length a)))"

definition join_space_chars :: "string \<Rightarrow> string" where
  "join_space_chars s = join_space (map (\<lambda>c. [c]) s)"

fun random_supports_loop ::
  "(nat \<Rightarrow> nat) \<Rightarrow> nat \<Rightarrow> (string \<rightharpoonup> nat list) \<Rightarrow> example list \<Rightarrow> string list
     \<Rightarrow> py_error + (string \<times> example) list" where
  "random_supports_loop draw n sorted_example_indices_by_command train_examples [] = Inr []"
| "random_supports_loop draw n sorted_example_indices_by_command train_examples
     (support_instruction_command # rest) =
     (let key = join_space_chars support_instruction_command in
      case sorted_example_indices_by_command key of
        None \<Rightarrow>
          random_supports_loop draw (Suc n) sorted_example_indices_by_command train_examples rest
      | Some bucket \<Rightarrow>
          (case random_choice_one (draw n) bucket of
             Inl e \<Rightarrow> Inl e
           | Inr relevant_example_idx \<Rightarrow>
               if relevant_example_idx < length train_examples
               then (case random_supports_loop draw (Suc n) sorted_example_indices_by_command
                            train_examples rest of
                       Inl e \<Rightarrow> Inl e
                     | Inr supports \<Rightarrow>
                         Inr ((support_instruction_command,
                               train_examples ! relevant_example_idx) # supports))
               else Inl IndexError))"

definition generate_random_instructions_find_support_in_any_layout ::
  "(nat \<Rightarrow> nat list) \<Rightarrow> (nat \<Rightarrow> nat) \<Rightarrow> string list \<Rightarrow> string list
     \<Rightarrow> (string \<rightharpoonup> nat list) \<times> example list \<Rightarrow> int
     \<Rightarrow> py_error + (string list \<times> string list list \<times> situation list)" where
  "generate_random_instructions_find_support_in_any_layout permutation draw key_order
       command_words payload num_demos =
     (case payload of
        (sorted_example_indices_by_command, train_examples) \<Rightarrow>
        let command_key = join_space command_words in
        case random_choice_no_replace permutation
               (filter (\<lambda>k. k \<noteq> command_key) key_order) num_demos of
          Inl e \<Rightarrow> Inl e
        | Inr random_instructions \<Rightarrow>
            (case random_supports_loop draw 0 sorted_example_indices_by_command train_examples
                    random_instructions of
               Inl e \<Rightarrow> Inl e
             | Inr supports \<Rightarrow>
                 Inr (map fst supports,
                      map (\<lambda>(k, relevant_example).
                             parse_command_repr (target_commands relevant_example)) supports,
                      map (\<lambda>(k, relevant_example). situation_of relevant_example) supports)))"

section \<open>The vocabulary (gscan/vocabulary.py)\<close>

text \<open>
  A Python dictionary from surface words to meanings is an association list with
  distinct keys, in insertion order. \<open>dict_keys\<close> and \<open>dict_values\<close> are
  \<^verbatim>\<open>list(d.keys())\<close> and \<^verbatim>\<open>list(d.values())\<close>, \<open>dict_update_all\<close> is
  \<^verbatim>\<open>d.update(other)\<close>, and \<open>dict_of\<close> builds a dictionary from its items.
\<close>

type_synonym binding = "(string, string) alist"

definition dict_keys :: "('k, 'v) alist \<Rightarrow> 'k list" where
  "dict_keys d = map fst (DAList.impl_of d)"

definition dict_values :: "('k, 'v) alist \<Rightarrow> 'v list" where
  "dict_values d = map snd (DAList.impl_of d)"

definition dict_update_all :: "('k, 'v) alist \<Rightarrow> ('k, 'v) alist \<Rightarrow> ('k, 'v) alist" where
  "dict_update_all d other = fold (\<lambda>(k, v). DAList.update k v) (DAList.impl_of other) d"

definition dict_of :: "('k \<times> 'v) list \<Rightarrow> ('k, 'v) alist" where
  "dict_of items = fold (\<lambda>(k, v). DAList.update k v) items DAList.empty"

text \<open>
  Python holds dictionaries and lists by reference. The store maps the references
  allocated so far to the objects behind them; a new object gets the next reference.
  \<open>dict_setitem\<close> is \<^verbatim>\<open>d[key] = value\<close> and \<open>list_append\<close> is \<^verbatim>\<open>l.append(x)\<close>,
  which change the object behind a reference in place.
\<close>

type_synonym dict_ref = nat
type_synonym list_ref = nat

record store =
  dict_at :: "dict_ref \<Rightarrow> binding"
  list_at :: "list_ref \<Rightarrow> string list"
  dicts_allocated :: nat
  lists_allocated :: nat

definition new_dict :: "binding \<Rightarrow> store \<Rightarrow> dict_ref \<times> store" where
  "new_dict d h =
     (dicts_allocated h,
      h\<lparr>dict_at := (dict_at h)(dicts_allocated h := d),
        dicts_allocated := Suc (dicts_allocated h)\<rparr>)"

definition new_list :: "string list \<Rightarrow> store \<Rightarrow> list_ref \<times> store" where
  "new_list l h =
     (lists_allocated h,
      h\<lparr>list_at := (list_at h)(lists_allocated h := l),
        lists_allocated := Suc (lists_allocated h)\<rparr>)"

definition dict_setitem :: "dict_ref \<Rightarrow> string \<Rightarrow> string \<Rightarrow> store \<Rightarrow> store" where
  "dict_setitem d key val h = h\<lparr>dict_at := (dict_at h)(d := DAList.update key val (dict_at h d))\<rparr>"

definition list_append :: "list_ref \<Rightarrow> string \<Rightarrow> store \<Rightarrow> store" where
  "list_append l x h = h\<lparr>list_at := (list_at h)(l := list_at h l @ [x])\<rparr>"

text \<open>
  The fields of a \<^verbatim>\<open>Vocabulary\<close> object. The six bindings are references to the
  dictionaries the constructor was given; the list of adjectives and the two translation
  tables are objects the constructor makes.
\<close>

record vocabulary =
  v_intransitive_verbs :: dict_ref
  v_transitive_verbs :: dict_ref
  v_adverbs :: dict_ref
  v_nouns :: dict_ref
  v_color_adjectives :: dict_ref
  v_size_adjectives :: dict_ref
  v_adjectives :: list_ref
  v_translation_table :: dict_ref
  v_translate_to :: dict_ref

text \<open>
  The constructor. It collects the keys of the six bindings and asserts that their
  number is the number of different words among them; a failed assertion ends the
  construction with AssertionError. It stores the six dictionaries it was given as they
  are, by reference, and computes the remaining fields from them, which cannot fail.
\<close>

definition Vocabulary_init ::
  "dict_ref \<Rightarrow> dict_ref \<Rightarrow> dict_ref \<Rightarrow> dict_ref \<Rightarrow> dict_ref \<Rightarrow> dict_ref \<Rightarrow> store
     \<Rightarrow> py_error + vocabulary \<times> store" where
  "Vocabulary_init intransitive_verbs transitive_verbs adverbs nouns color_adjectives
       size_adjectives h =
     (let all_words = dict_keys (dict_at h intransitive_verbs)
            @ dict_keys (dict_at h transitive_verbs)
            @ dict_keys (dict_at h adverbs) @ dict_keys (dict_at h nouns)
            @ dict_keys (dict_at h color_adjectives)
            @ dict_keys (dict_at h size_adjectives);
          all_unique_words = set all_words
      in if length all_words \<noteq> card all_unique_words then Inl AssertionError
         else
           let (adjectives, h1) =
                 new_list
                   (if length (dict_keys (dict_at h color_adjectives)) > 0
                       \<and> length (dict_keys (dict_at h size_adjectives)) > 0
                    then dict_values (dict_at h color_adjectives)
                           @ dict_values (dict_at h size_adjectives)
                    else if length (dict_keys (dict_at h color_adjectives)) > 0
                    then dict_values (dict_at h color_adjectives)
                    else dict_values (dict_at h size_adjectives)) h;
               (translation_table, h2) =
                 new_dict
                   (dict_update_all (dict_update_all (dict_update_all (dict_update_all
                      (dict_update_all (dict_update_all
                         (dict_of [(''to'', ''to''), (''a'', ''a''), (''and'', ''and'')])
                         (dict_at h1 intransitive_verbs)) (dict_at h1 transitive_verbs))
                      (dict_at h1 nouns)) (dict_at h1 color_adjectives))
                      (dict_at h1 size_adjectives)) (dict_at h1 adverbs)) h1;
               (translate_to, h3) =
                 new_dict
                   (dict_of (map (\<lambda>(word, semantic_word). (semantic_word, word))
                               (DAList.impl_of (dict_at h2 translation_table)))) h2
           in Inr (\<lparr>v_intransitive_verbs = intransitive_verbs,
                    v_transitive_verbs = transitive_verbs,
                    v_adverbs = adverbs, v_nouns = nouns,
                    v_color_adjectives = color_adjectives,
                    v_size_adjectives = size_adjectives,
                    v_adjectives = adjectives,
                    v_translation_table = translation_table,
                    v_translate_to = translate_to\<rparr>, h3))"

text \<open>
  The methods that read a vocabulary, each returning its result together with the store
  after the call. A getter builds a list of the keys (or values) of a binding and returns
  a copy of it, \<^verbatim>\<open>list(self._nouns.keys()).copy()\<close>: both lists are new objects.
  \<^verbatim>\<open>to_representation\<close> returns a new dictionary whose values are the six stored
  dictionaries themselves; its items are given here in the order of the source.
\<close>

definition list_copy :: "list_ref \<Rightarrow> store \<Rightarrow> list_ref \<times> store" where
  "list_copy l h = new_list (list_at h l) h"

definition keys_list_copy :: "dict_ref \<Rightarrow> store \<Rightarrow> list_ref \<times> store" where
  "keys_list_copy d h = (let (l, h1) = new_list (dict_keys (dict_at h d)) h in list_copy l h1)"

definition values_list_copy :: "dict_ref \<Rightarrow> store \<Rightarrow> list_ref \<times> store" where
  "values_list_copy d h = (let (l, h1) = new_list (dict_values (dict_at h d)) h in list_copy l h1)"

definition get_intransitive_verbs :: "vocabulary \<Rightarrow> store \<Rightarrow> list_ref \<times> store" where
  "get_intransitive_verbs v h = keys_list_copy (v_intransitive_verbs v) h"

definition get_transitive_verbs :: "vocabulary \<Rightarrow> store \<Rightarrow> list_ref \<times> store" where
  "get_transitive_verbs v h = keys_list_copy (v_transitive_verbs v) h"

definition get_adverbs :: "vocabulary \<Rightarrow> store \<Rightarrow> list_ref \<times> store" where
  "get_adverbs v h = keys_list_copy (v_adverbs v) h"

definition get_nouns :: "vocabulary \<Rightarrow> store \<Rightarrow> list_ref \<times> store" where
  "get_nouns v h = keys_list_copy (v_nouns v) h"

definition get_color_adjectives :: "vocabulary \<Rightarrow> store \<Rightarrow> list_ref \<times> store" where
  "get_color_adjectives v h = keys_list_copy (v_color_adjectives v) h"

definition get_size_adjectives :: "vocabulary \<Rightarrow> store \<Rightarrow> list_ref \<times> store" where
  "get_size_adjectives v h = keys_list_copy (v_size_adjectives v) h"

definition get_semantic_shapes :: "vocabulary \<Rightarrow> store \<Rightarrow> list_ref \<times> store" where
  "get_semantic_shapes v h = values_list_copy (v_nouns v) h"

definition get_semantic_colors :: "vocabulary \<Rightarrow> store \<Rightarrow> list_ref \<times> store" where
  "get_semantic_colors v h = values_list_copy (v_color_adjectives v) h"

definition translate_word :: "vocabulary \<Rightarrow> string \<Rightarrow> store \<Rightarrow> string \<times> store" where
  "translate_word v word h =
     ((case DAList.lookup (dict_at h (v_translation_table v)) word of
         Some meaning \<Rightarrow> meaning | None \<Rightarrow> []), h)"

definition translate_meaning :: "vocabulary \<Rightarrow> string \<Rightarrow> store \<Rightarrow> string \<times> store" where
  "translate_meaning v meaning h =
     ((case DAList.lookup (dict_at h (v_translate_to v)) meaning of
         Some word \<Rightarrow> word | None \<Rightarrow> []), h)"

definition n_attributes :: "vocabulary \<Rightarrow> store \<Rightarrow> nat \<times> store" where
  "n_attributes v h =
     (length (dict_keys (dict_at h (v_nouns v)))
        * length (dict_keys (dict_at h (v_color_adjectives v))), h)"

definition to_representation :: "vocabulary \<Rightarrow> store \<Rightarrow> (string \<times> dict_ref) list \<times> store" where
  "to_representation v h =
     ([(''intransitive_verbs'', v_intransitive_verbs v),
       (''transitive_verbs'', v_transitive_verbs v),
       (''nouns'', v_nouns v),
       (''adverbs'', v_adverbs v),
       (''color_adjectives'', v_color_adjectives v),
       (''size_adjectives'', v_size_adjectives v)], h)"

text \<open>
  Some surface word appears in more than one of the categories: two different
  positions of the list of key lists have a word in common. \<open>category_keys\<close> are the
  key lists of six dictionaries of the store, and \<open>category_sets\<close> those of the six
  bindings of a vocabulary.
\<close>

definition shared_word :: "string list list \<Rightarrow> bool" where
  "shared_word categories =
     (\<exists>i j w. i < j \<and> j < length categories
        \<and> w \<in> set (categories ! i) \<and> w \<in> set (categories ! j))"

definition category_keys ::
  "dict_ref \<Rightarrow> dict_ref \<Rightarrow> dict_ref \<Rightarrow> dict_ref \<Rightarrow> dict_ref \<Rightarrow> dict_ref \<Rightarrow> store
     \<Rightarrow> string list list" where
  "category_keys intransitive_verbs transitive_verbs adverbs nouns color_adjectives
       size_adjectives h =
     [dict_keys (dict_at h intransitive_verbs), dict_keys (dict_at h transitive_verbs),
      dict_keys (dict_at h adverbs), dict_keys (dict_at h nouns),
      dict_keys (dict_at h color_adjectives), dict_keys (dict_at h size_adjectives)]"

definition category_sets :: "vocabulary \<Rightarrow> store \<Rightarrow> string list list" where
  "category_sets v h =
     category_keys (v_intransitive_verbs v) (v_transitive_verbs v) (v_adverbs v) (v_nouns v)
       (v_color_adjectives v) (v_size_adjectives v) h"

text \<open>
  What a holder of a vocabulary can do with it through the class: call a method, or
  change a list that he holds, such as one a getter returned.
\<close>

datatype client_action =
    Call_get_intransitive_verbs | Call_get_transitive_verbs | Call_get_adverbs
  | Call_get_nouns | Call_get_color_adjectives | Call_get_size_adjectives
  | Call_get_semantic_shapes | Call_get_semantic_colors
  | Call_translate_word string | Call_translate_meaning string
  | Call_n_attributes | Call_to_representation
  | Append_to_list list_ref string

fun client_step :: "vocabulary \<Rightarrow> client_action \<Rightarrow> store \<Rightarrow> store" where
  "client_step v Call_get_intransitive_verbs h = snd (get_intransitive_verbs v h)"
| "client_step v Call_get_transitive_verbs h = snd (get_transitive_verbs v h)"
| "client_step v Call_get_adverbs h = snd (get_adverbs v h)"
| "client_step v Call_get_nouns h = snd (get_nouns v h)"
| "client_step v Call_get_color_adjectives h = snd (get_color_adjectives v h)"
| "client_step v Call_get_size_adjectives h = snd (get_size_adjectives v h)"
| "client_step v Call_get_semantic_shapes h = snd (get_semantic_shapes v h)"
| "client_step v Call_get_semantic_colors h = snd (get_semantic_colors v h)"
| "client_step v (Call_translate_word word) h = snd (translate_word v word h)"
| "client_step v (Call_translate_meaning meaning) h = snd (translate_meaning v meaning h)"
| "client_step v Call_n_attributes h = snd (n_attributes v h)"
| "client_step v Call_to_representation h = snd (to_representation v h)"
| "client_step v (Append_to_list l x) h = list_append l x h"

definition client_run :: "vocabulary \<Rightarrow> client_action list \<Rightarrow> store \<Rightarrow> store" where
  "client_run v actions h = fold (client_step v) actions h"

text \<open>
  A call returns a copy: a list that was not allocated before the call, with the given
  contents, while the lists and dictionaries that existed before the call are as they
  were.
\<close>

definition returns_copy :: "store \<Rightarrow> list_ref \<times> store \<Rightarrow> string list \<Rightarrow> bool" where
  "returns_copy h result contents =
     (case result of
        (l, h') \<Rightarrow>
          lists_allocated h \<le> l \<and> l < lists_allocated h' \<and> list_at h' l = contents
          \<and> (\<forall>r < lists_allocated h. list_at h' r = list_at h r)
          \<and> dict_at h' = dict_at h \<and> dicts_allocated h' = dicts_allocated h)"

section \<open>The round-robin order as the specification words it\<close>

text \<open>
  The specification describes the reordering by its outcome: starting in mode colour,
  the next option emitted is the first one in corpus order that has not been emitted and
  matches the criterion of the current mode; when the current mode has no such option
  the next mode of the cycle colour, object, size that has one is used; after an
  emission the mode advances to the mode after the one used; the reordering ends when
  no remaining option matches any criterion. \<open>matching m i\<close> says that option \<open>i\<close>
  matches the criterion of mode \<open>m\<close>, and \<open>remaining\<close> holds the indices not yet emitted.
\<close>

definition first_in_mode :: "nat \<Rightarrow> (mode \<Rightarrow> nat \<Rightarrow> bool) \<Rightarrow> nat set \<Rightarrow> mode \<Rightarrow> nat option" where
  "first_in_mode n matching remaining m =
     find (\<lambda>i. i \<in> remaining \<and> matching m i) [0 ..< n]"

definition next_emission ::
  "nat \<Rightarrow> (mode \<Rightarrow> nat \<Rightarrow> bool) \<Rightarrow> nat set \<Rightarrow> mode \<Rightarrow> (mode \<times> nat) option" where
  "next_emission n matching remaining m =
     (case first_in_mode n matching remaining m of
        Some p \<Rightarrow> Some (m, p)
      | None \<Rightarrow>
          (case first_in_mode n matching remaining (next_mode m) of
             Some p \<Rightarrow> Some (next_mode m, p)
           | None \<Rightarrow>
               (case first_in_mode n matching remaining (next_mode (next_mode m)) of
                  Some p \<Rightarrow> Some (next_mode (next_mode m), p)
                | None \<Rightarrow> None)))"

lemma find_upt_Some:
  "find P [0..<n] = Some p \<longleftrightarrow> p < n \<and> P p \<and> (\<forall>q < p. \<not> P q)"
proof -
  have "find P [0..<n] = Some p \<longleftrightarrow>
        (\<exists>i<length [0..<n]. P ([0..<n] ! i) \<and> p = [0..<n] ! i \<and> (\<forall>j<i. \<not> P ([0..<n] ! j)))"
    by (rule find_Some_iff)
  also have "\<dots> \<longleftrightarrow> p < n \<and> P p \<and> (\<forall>q < p. \<not> P q)"
    by auto
  finally show ?thesis .
qed

lemma find_upt_None: "find P [0..<n] = None \<longleftrightarrow> (\<forall>q < n. \<not> P q)"
  by (auto simp: find_None_iff)

lemma first_in_mode_Some:
  "first_in_mode n matching remaining m = Some p
   \<longleftrightarrow> p < n \<and> p \<in> remaining \<and> matching m p
       \<and> (\<forall>q < p. \<not> (q \<in> remaining \<and> matching m q))"
  unfolding first_in_mode_def find_upt_Some by blast

lemma first_in_mode_None:
  "first_in_mode n matching remaining m = None
   \<longleftrightarrow> (\<forall>q < n. \<not> (q \<in> remaining \<and> matching m q))"
  unfolding first_in_mode_def find_upt_None by blast

lemma next_emission_Some:
  "next_emission n matching remaining m = Some (m', p)
   \<Longrightarrow> p < n \<and> p \<in> remaining \<and> matching m' p"
  by (auto simp: next_emission_def first_in_mode_Some split: option.splits)

function round_robin_spec ::
  "nat \<Rightarrow> (mode \<Rightarrow> nat \<Rightarrow> bool) \<Rightarrow> nat set \<Rightarrow> mode \<Rightarrow> nat list" where
  "round_robin_spec n matching remaining m =
     (case next_emission n matching remaining m of
        None \<Rightarrow> []
      | Some (m', p) \<Rightarrow> p # round_robin_spec n matching (remaining - {p}) (next_mode m'))"
  by pat_completeness auto
termination
proof (relation "measure (\<lambda>(n, matching, remaining, m). card (remaining \<inter> {..<n}))", goal_cases)
  case 1
  then show ?case by simp
next
  case (2 n matching remaining m x m' p)
  then have "p < n \<and> p \<in> remaining" using next_emission_Some by metis
  then have mem: "p \<in> remaining \<inter> {..<n}" by simp
  have fin: "finite (remaining \<inter> {..<n})" by simp
  have pos: "0 < card (remaining \<inter> {..<n})" using mem fin card_gt_0_iff by blast
  have "(remaining - {p}) \<inter> {..<n} = (remaining \<inter> {..<n}) - {p}" by auto
  then show ?case using mem pos by simp
qed

declare round_robin_spec.simps [simp del]

text \<open>
  Option \<open>i\<close> matches the criterion of a mode when one of its descriptor words is a
  word of that kind (a colour, a noun, or a size word) and occurs among the query's
  descriptor words.
\<close>

definition query_match ::
  "description_option list \<Rightarrow> string list \<Rightarrow> string list \<Rightarrow> string list \<Rightarrow> mode \<Rightarrow> nat
     \<Rightarrow> bool" where
  "query_match description_words_options query_description_words vocabulary_colors
       vocabulary_nouns m i =
     (\<exists>w \<in> set (fst (description_words_options ! i)).
        w \<in> set (mode_words vocabulary_colors vocabulary_nouns m)
        \<and> w \<in> set query_description_words)"

text \<open>
  The invariant of the loop: every entry that a cursor has passed is already emitted or
  does not match the cursor's mode.
\<close>

definition cursors_passed ::
  "nat \<Rightarrow> (mode \<Rightarrow> bool list) \<Rightarrow> (mode \<Rightarrow> nat) \<Rightarrow> nat set \<Rightarrow> bool" where
  "cursors_passed n flags idx remaining =
     (\<forall>m j. j < idx m \<and> j < n \<longrightarrow>
        sorted_reverse_by_flag (flags m) [0..<n] ! j \<notin> remaining
        \<or> \<not> flags m ! (sorted_reverse_by_flag (flags m) [0..<n] ! j))"

section \<open>The situation codec\<close>

text \<open>
  The situation as the dataset file holds it: the agent's position and direction and the
  placed objects, in the order of the \<^verbatim>\<open>placed_objects\<close> dictionary.
\<close>

record situation_representation =
  rep_agent_position :: position
  rep_agent_direction :: int
  rep_placed_objects :: "positioned_object list"

text \<open>
  The agent's vector is a NumPy array of 32-bit integers and the dense grid one of 64-bit
  integers. Storing a Python integer outside the range of the array's integers raises
  OverflowError (in NumPy 2; older versions raise it outside the 64-bit range and keep a
  value inside it modulo \<open>2^32\<close>).
\<close>

definition fits_int32 :: "int \<Rightarrow> bool" where
  "fits_int32 x = (- 2147483648 \<le> x \<and> x < 2147483648)"

definition fits_int64 :: "int \<Rightarrow> bool" where
  "fits_int64 x = (- 9223372036854775808 \<le> x \<and> x < 9223372036854775808)"

text \<open>
  \<^verbatim>\<open>np.array\<close> of a list of Python integers, with no \<^verbatim>\<open>dtype\<close>, chooses the type of
  the array from the values. The array holds 64-bit integers when all values fit them,
  and unsigned 64-bit integers when all values are at least \<open>2^63\<close> and below \<open>2^64\<close>.
  When the values are between \<open>- 2^63\<close> and \<open>2^64\<close> but of both kinds, the array holds
  doubles, and each value is rounded to the nearest double, ties to even: to 53
  significant bits. With a value outside that range the array holds the Python integers
  themselves. \<open>np_array\<close> gives the values that the array holds.
\<close>

function bit_length :: "int \<Rightarrow> int" where
  "bit_length x = (if x \<le> 0 then 0 else 1 + bit_length (x div 2))"
  by pat_completeness auto
termination
  by (relation "measure nat") auto

declare bit_length.simps [simp del]

definition float64_of_int :: "int \<Rightarrow> int" where
  "float64_of_int x =
     (let a = abs x;
          e = nat (bit_length a - 53);
          u = 2 ^ e;
          q = a div u;
          r = a mod u;
          q' = (if 2 * r > u \<or> (2 * r = u \<and> odd q) then q + 1 else q)
      in sgn x * (q' * u))"

definition np_array :: "int list \<Rightarrow> int list" where
  "np_array xs =
     (if list_all fits_int64 xs then xs
      else if list_all (\<lambda>x. - 9223372036854775808 \<le> x \<and> x < 18446744073709551616) xs
      then (if list_all (\<lambda>x. 9223372036854775808 \<le> x) xs then xs
            else map float64_of_int xs)
      else xs)"


text \<open>
  The scheme "sequence": one vector for the agent and one for each placed object. With
  \<^verbatim>\<open>reascan_boxes\<close> the vectors have three more slots, which a box uses for its
  size, its colour and a flag. A colour or a shape that is no key of its dictionary
  raises KeyError.
\<close>

definition object_row_sequence ::
  "(string \<rightharpoonup> int) \<Rightarrow> (string \<rightharpoonup> int) \<Rightarrow> bool \<Rightarrow> positioned_object \<Rightarrow> py_error + int list" where
  "object_row_sequence color2idx noun2idx reascan_boxes placed_object =
     (let object_row = row (position placed_object);
          object_column = column (position placed_object)
      in if reascan_boxes \<and> shape (object placed_object) = ''box''
         then (case color2idx (color (object placed_object)) of
                 None \<Rightarrow> Inl KeyError
               | Some color_index \<Rightarrow>
                   Inr (np_array [0, 0, 0, 0, 0, object_row, object_column,
                                  osize (object placed_object), color_index, 1]))
         else (case color2idx (color (object placed_object)) of
                 None \<Rightarrow> Inl KeyError
               | Some color_index \<Rightarrow>
                   (case noun2idx (shape (object placed_object)) of
                      None \<Rightarrow> Inl KeyError
                    | Some noun_index \<Rightarrow>
                        Inr (np_array
                               ([osize (object placed_object), color_index, noun_index, 0, 0,
                                 object_row, object_column]
                                @ (if reascan_boxes then [0, 0, 0] else []))))))"

fun object_rows_sequence ::
  "(string \<rightharpoonup> int) \<Rightarrow> (string \<rightharpoonup> int) \<Rightarrow> bool \<Rightarrow> positioned_object list
     \<Rightarrow> py_error + int list list" where
  "object_rows_sequence color2idx noun2idx reascan_boxes [] = Inr []"
| "object_rows_sequence color2idx noun2idx reascan_boxes (placed_object # rest) =
     (case object_row_sequence color2idx noun2idx reascan_boxes placed_object of
        Inl e \<Rightarrow> Inl e
      | Inr r \<Rightarrow>
          (case object_rows_sequence color2idx noun2idx reascan_boxes rest of
             Inl e \<Rightarrow> Inl e
           | Inr rs \<Rightarrow> Inr (r # rs)))"

text \<open>
  The scheme "all": a grid of \<open>grid_size\<close> by \<open>grid_size\<close> cells. NumPy accepts an
  index \<open>i\<close> of an axis of length \<open>n\<close> when \<open>-n \<le> i < n\<close>, counts a negative index
  from the end, and raises IndexError otherwise. An object is written into the channels
  0, 1 and 2 of its cell (a box, with \<^verbatim>\<open>reascan_boxes\<close>, into the channels 5, 6 and
  7), over whatever the cell held.
\<close>

definition np_index :: "nat \<Rightarrow> int \<Rightarrow> nat option" where
  "np_index n i =
     (if 0 \<le> i \<and> i < int n then Some (nat i)
      else if - int n \<le> i \<and> i < 0 then Some (nat (i + int n))
      else None)"

definition set_channel :: "int list list list \<Rightarrow> nat \<Rightarrow> nat \<Rightarrow> nat \<Rightarrow> int \<Rightarrow> int list list list" where
  "set_channel grid r c k v = grid[r := (grid ! r)[c := (grid ! r ! c)[k := v]]]"

definition place_object_all ::
  "(string \<rightharpoonup> int) \<Rightarrow> (string \<rightharpoonup> int) \<Rightarrow> bool \<Rightarrow> nat \<Rightarrow> int list list list
     \<Rightarrow> positioned_object \<Rightarrow> py_error + int list list list" where
  "place_object_all color2idx noun2idx reascan_boxes n grid placed_object =
     (case (np_index n (row (position placed_object)),
            np_index n (column (position placed_object))) of
        (Some r, Some c) \<Rightarrow>
          if \<not> fits_int64 (osize (object placed_object)) then Inl OverflowError
          else (case color2idx (color (object placed_object)) of
                  None \<Rightarrow> Inl KeyError
                | Some color_index \<Rightarrow>
                    if \<not> fits_int64 color_index then Inl OverflowError
                    else if reascan_boxes \<and> shape (object placed_object) = ''box''
                    then Inr (set_channel
                                (set_channel
                                   (set_channel grid r c 5 (osize (object placed_object)))
                                   r c 6 color_index)
                                r c 7 1)
                    else (case noun2idx (shape (object placed_object)) of
                            None \<Rightarrow> Inl KeyError
                          | Some noun_index \<Rightarrow>
                              if \<not> fits_int64 noun_index then Inl OverflowError
                              else Inr (set_channel
                                          (set_channel
                                             (set_channel grid r c 0
                                                (osize (object placed_object)))
                                             r c 1 color_index)
                                          r c 2 noun_index)))
      | _ \<Rightarrow> Inl IndexError)"

fun place_objects_all ::
  "(string \<rightharpoonup> int) \<Rightarrow> (string \<rightharpoonup> int) \<Rightarrow> bool \<Rightarrow> nat \<Rightarrow> int list list list
     \<Rightarrow> positioned_object list \<Rightarrow> py_error + int list list list" where
  "place_objects_all color2idx noun2idx reascan_boxes n grid [] = Inr grid"
| "place_objects_all color2idx noun2idx reascan_boxes n grid (placed_object # rest) =
     (case place_object_all color2idx noun2idx reascan_boxes n grid placed_object of
        Inl e \<Rightarrow> Inl e
      | Inr grid' \<Rightarrow> place_objects_all color2idx noun2idx reascan_boxes n grid' rest)"

text \<open>
  \<^verbatim>\<open>add_positional_information_to_grid\<close> appends to every cell the running sums of
  ones along the two axes, which are the row index plus one and the column index plus
  one, and flattens the grid row by row.
\<close>

definition add_positional_information_to_grid :: "int list list list \<Rightarrow> int list list" where
  "add_positional_information_to_grid grid =
     concat (map (\<lambda>r. map (\<lambda>c. grid ! r ! c @ [int r + 1, int c + 1])
                          [0 ..< length (grid ! r)])
                 [0 ..< length grid])"

text \<open>
  \<^verbatim>\<open>parse_sparse_situation\<close>. A scheme other than the two leaves the result \<open>None\<close>.
  The agent's vector is filled before anything else is looked up. In the scheme "all"
  the agent's flag and direction are stored at the indices -2 and -1 of its vector: the
  last two channels of its cell, whatever the number of channels.
\<close>

definition parse_sparse_situation ::
  "situation_representation \<Rightarrow> int \<Rightarrow> (string \<rightharpoonup> int) \<Rightarrow> (string \<rightharpoonup> int) \<Rightarrow> string \<Rightarrow> bool
     \<Rightarrow> py_error + int list list option" where
  "parse_sparse_situation situation_representation grid_size color2idx noun2idx
       world_encoding_scheme reascan_boxes =
     (let agent_row = row (rep_agent_position situation_representation);
          agent_column = column (rep_agent_position situation_representation);
          agent_direction = rep_agent_direction situation_representation
      in if world_encoding_scheme = ''sequence''
         then
           if \<not> fits_int32 agent_direction \<or> \<not> fits_int32 agent_row
              \<or> \<not> fits_int32 agent_column
           then Inl OverflowError
           else
             let agent_representation =
                   [0, 0, 0, 1, agent_direction, agent_row, agent_column]
                   @ (if reascan_boxes then [0, 0, 0] else [])
             in (case object_rows_sequence color2idx noun2idx reascan_boxes
                        (rep_placed_objects situation_representation) of
                   Inl e \<Rightarrow> Inl e
                 | Inr rows \<Rightarrow> Inr (Some (agent_representation # rows)))
         else if world_encoding_scheme = ''all''
         then
           if grid_size < 0 then Inl ValueError
           else if \<not> fits_int32 agent_direction then Inl OverflowError
           else
             let n = nat grid_size;
                 num_grid_channels = (if reascan_boxes then 8 else 5);
                 grid = replicate n (replicate n (replicate num_grid_channels 0));
                 agent_representation =
                   replicate (num_grid_channels - 2) 0 @ [1, agent_direction]
             in (case (np_index n agent_row, np_index n agent_column) of
                   (Some r, Some c) \<Rightarrow>
                     (case place_objects_all color2idx noun2idx reascan_boxes n
                             (grid[r := (grid ! r)[c := agent_representation]])
                             (rep_placed_objects situation_representation) of
                        Inl e \<Rightarrow> Inl e
                      | Inr grid' \<Rightarrow> Inr (Some (add_positional_information_to_grid grid')))
                 | _ \<Rightarrow> Inl IndexError)
         else Inr None)"


text \<open>
  Modelled from the spec: the decoding half of the situation codec, which is not among
  the repository's sources. Section 4.1 of the specification fixes the layout: the agent
  is the vector whose slot 3 is set, with its direction in slot 4; an object vector holds
  size, colour index and shape index in the slots 0, 1 and 2 and has a shape index other
  than zero; a box, in the sequence scheme with boxes, has its flag in slot 9 and its size
  and colour index in the slots 7 and 8; the position is in the slots 5 and 6, as row and
  column in the sequence scheme and as row plus one and column plus one in the dense
  scheme without boxes. A colour index \<open>i\<close> stands for the colour at place \<open>i - 1\<close> of the
  colour list, and likewise for shapes.
\<close>

definition decode_agent :: "int \<Rightarrow> int list list \<Rightarrow> ((int \<times> int) \<times> int) option" where
  "decode_agent base rows =
     (case find (\<lambda>s. s ! 3 \<noteq> 0) rows of
        None \<Rightarrow> None
      | Some s \<Rightarrow> Some ((s ! 5 - base, s ! 6 - base), s ! 4))"








text \<open>A grid none of whose cells has the channel 3 set.\<close>

definition no_agent_flag :: "int list list list \<Rightarrow> bool" where
  "no_agent_flag grid = (\<forall>cells \<in> set grid. \<forall>cell \<in> set cells. 3 < length cell \<and> cell ! 3 = 0)"

section \<open>A concrete situation\<close>

text \<open>
  A red square of size 2 is the target at the agent's own cell, and a red circle of size 1
  lies two rows south and two columns east. The query asks to walk to the red square.
\<close>

definition example_target :: positioned_object where
  "example_target = \<lparr>object = \<lparr>osize = 2, color = ''red'', shape = ''square''\<rparr>,
                     position = \<lparr>row = 0, column = 0\<rparr>\<rparr>"

definition example_alternative :: positioned_object where
  "example_alternative = \<lparr>object = \<lparr>osize = 1, color = ''red'', shape = ''circle''\<rparr>,
                          position = \<lparr>row = 2, column = 2\<rparr>\<rparr>"

definition example_situation :: situation where
  "example_situation = \<lparr>agent_pos = \<lparr>row = 0, column = 0\<rparr>, target_object = example_target,
                        placed_objects = [example_target, example_alternative]\<rparr>"

definition example_colors :: "string list" where
  "example_colors = [''blue'', ''green'', ''red'', ''yellow'']"

definition example_nouns :: "string list" where
  "example_nouns = [''circle'', ''cylinder'', ''square'']"

definition example_query :: "string list" where
  "example_query = [''walk'', ''to'', ''a'', ''red'', ''square'']"


text \<open>A corpus of three examples, two of them with the same command.\<close>

definition example_corpus :: "example list" where
  "example_corpus =
     [\<lparr>command = ''walk,to,a,red,square'', target_commands = ''walk'',
       situation_of = example_situation\<rparr>,
      \<lparr>command = ''push,a,red,circle'', target_commands = ''walk,walk,push'',
       situation_of = example_situation\<rparr>,
      \<lparr>command = ''walk,to,a,red,square'', target_commands = ''turn left,walk'',
       situation_of = example_situation\<rparr>]"

text \<open>Random outcomes and a payload for the corpus of three examples.\<close>

definition example_permutation :: "nat \<Rightarrow> nat list" where
  "example_permutation n = [0 ..< n]"

definition example_key_order :: "string list" where
  "example_key_order = [''walk to a red square'', ''push a red circle'']"

definition example_draw :: "nat \<Rightarrow> nat" where
  "example_draw i = 0"

definition example_payload ::
  "(int \<times> int \<rightharpoonup> nat list) \<times> (string \<rightharpoonup> nat list) \<times> example list" where
  "example_payload =
     (sort_indices_by_target_positions example_corpus, sort_indices_by_command example_corpus,
      example_corpus)"

text \<open>The bindings of the gSCAN vocabulary, and transitive verbs that reuse the word walk.\<close>

definition example_intransitive_verbs :: binding where
  "example_intransitive_verbs = dict_of [(''walk'', ''walk'')]"

definition example_transitive_verbs :: binding where
  "example_transitive_verbs = dict_of [(''push'', ''push''), (''pull'', ''pull'')]"

definition example_adverbs :: binding where
  "example_adverbs = dict_of [(''cautiously'', ''cautiously''),
     (''while spinning'', ''while spinning''), (''while zigzagging'', ''while zigzagging''),
     (''hesitantly'', ''hesitantly'')]"

definition example_noun_binding :: binding where
  "example_noun_binding = dict_of [(''circle'', ''circle''), (''square'', ''square''),
     (''cylinder'', ''cylinder'')]"

definition example_color_adjectives :: binding where
  "example_color_adjectives = dict_of [(''red'', ''red''), (''green'', ''green''),
     (''blue'', ''blue''), (''yellow'', ''yellow'')]"

definition example_size_adjectives :: binding where
  "example_size_adjectives = dict_of [(''small'', ''small''), (''big'', ''big'')]"

definition example_clashing_verbs :: binding where
  "example_clashing_verbs = dict_of [(''push'', ''push''), (''walk'', ''pull'')]"

text \<open>
  A store that holds the six bindings behind the references 0 to 5 and the clashing
  transitive verbs behind the reference 6.
\<close>

definition example_store :: store where
  "example_store =
     \<lparr>dict_at = (\<lambda>r. DAList.empty)(0 := example_intransitive_verbs,
          1 := example_transitive_verbs, 2 := example_adverbs, 3 := example_noun_binding,
          4 := example_color_adjectives, 5 := example_size_adjectives,
          6 := example_clashing_verbs),
       list_at = (\<lambda>r. []), dicts_allocated = 7, lists_allocated = 0\<rparr>"

text \<open>Five alternatives to a small red circle; the last one matches no criterion.\<close>

definition example_object :: "int \<Rightarrow> string \<Rightarrow> string \<Rightarrow> int \<Rightarrow> int \<Rightarrow> positioned_object" where
  "example_object sz col shp r c =
     \<lparr>object = \<lparr>osize = sz, color = col, shape = shp\<rparr>, position = \<lparr>row = r, column = c\<rparr>\<rparr>"

definition example_options :: "description_option list" where
  "example_options =
     [([''big'', ''blue'', ''circle''], example_object 3 ''blue'' ''circle'' 0 1),
      ([''small'', ''red'', ''square''], example_object 1 ''red'' ''square'' 0 2),
      ([''big'', ''red'', ''cylinder''], example_object 4 ''red'' ''cylinder'' 1 0),
      ([''small'', ''green'', ''circle''], example_object 1 ''green'' ''circle'' 1 1),
      ([''big'', ''yellow'', ''square''], example_object 2 ''yellow'' ''square'' 3 3)]"











section \<open>Properties\<close>

subsection \<open>Prohibition rules\<close>

text \<open>
  Claim C4. With an empty waiver set (the default \<open>None\<close>, or an explicit empty list),
  \<open>is_prohibited_description\<close> tests the rules B, C, D, E, F in this order and returns
  the letter of the first rule that holds, or nothing when none holds.
\<close>

theorem is_prohibited_description_no_waiver:
  "is_prohibited_description agent tgt description_words None
     = first_matching (prohibition_rules agent tgt description_words)
   \<and> is_prohibited_description agent tgt description_words (Some [])
     = first_matching (prohibition_rules agent tgt description_words)"
  by (simp add: is_prohibited_description_def prohibition_rules_def)

subsection \<open>Batching\<close>

lemma batched_loop_Nil: "batched_loop [] n = []"
  by (simp add: batched_loop.simps)

lemma batched_loop_step:
  "0 < n \<Longrightarrow> it \<noteq> [] \<Longrightarrow> batched_loop it n = take n it # batched_loop (drop n it) n"
  by (subst batched_loop.simps) simp

lemma batched_loop_concat: "0 < n \<Longrightarrow> concat (batched_loop xs n) = xs"
proof (induction xs n rule: batched_loop.induct)
  case (1 it n)
  show ?case
  proof (cases "it = []")
    case True
    then show ?thesis by (simp add: batched_loop_Nil)
  next
    case False
    with 1 have "concat (batched_loop (drop n it) n) = drop n it" by simp
    with False 1(2) show ?thesis by (simp add: batched_loop_step)
  qed
qed

lemma ceil_div_small:
  assumes "0 < n" "0 < k" "k \<le> n"
  shows "(k + n - 1) div n = (1::nat)"
proof -
  obtain j where j: "k = Suc j" using assms(2) by (cases k) auto
  then have "j < n" using assms(3) by simp
  then have a: "j div n = 0" by simp
  have b: "(j + n) div n = j div n + 1" using assms(1) by (simp only: div_add_self2)
  have c: "k + n - 1 = j + n" using j by simp
  show ?thesis unfolding c b a by simp
qed

lemma ceil_div_large:
  assumes "0 < n" "n < (k::nat)"
  shows "(k + n - 1) div n = Suc ((k - n + n - 1) div n)"
proof -
  from assms(2) have "\<exists>m. k = Suc (n + m)" by (simp only: less_iff_Suc_add)
  then obtain m where m: "k = Suc (n + m)" ..
  have a: "(m + n + n) div n = (m + n) div n + 1" using assms(1) by (simp only: div_add_self2)
  have b: "k + n - 1 = m + n + n" using m by simp
  have c: "k - n + n - 1 = m + n" using m by simp
  show ?thesis unfolding b c a by simp
qed

lemma batched_loop_length: "0 < n \<Longrightarrow> length (batched_loop xs n) = (length xs + n - 1) div n"
proof (induction xs n rule: batched_loop.induct)
  case (1 it n)
  show ?case
  proof (cases "it = []")
    case True
    then show ?thesis using 1(2) by (simp add: batched_loop_Nil)
  next
    case False
    with 1 have ih: "length (batched_loop (drop n it) n) = (length (drop n it) + n - 1) div n" by simp
    show ?thesis
    proof (cases "length it \<le> n")
      case True
      then have "(length it + n - 1) div n = 1" using False 1(2) ceil_div_small[of n "length it"] by simp
      then show ?thesis using False True 1(2) by (simp add: batched_loop_step batched_loop_Nil)
    next
      case c: False
      then have "(length it + n - 1) div n = Suc ((length it - n + n - 1) div n)"
        using 1(2) ceil_div_large[of n "length it"] by simp
      then show ?thesis using False ih 1(2) by (simp add: batched_loop_step)
    qed
  qed
qed

lemma batched_loop_sizes:
  "0 < n \<Longrightarrow> Suc i < length (batched_loop xs n) \<Longrightarrow> length (batched_loop xs n ! i) = n"
proof (induction xs n arbitrary: i rule: batched_loop.induct)
  case (1 it n)
  show ?case
  proof (cases "it = []")
    case True
    then show ?thesis using 1(3) by (simp add: batched_loop_Nil)
  next
    case False
    then have st: "batched_loop it n = take n it # batched_loop (drop n it) n"
      using 1(2) by (simp add: batched_loop_step)
    have rest: "batched_loop (drop n it) n \<noteq> []" using 1(3) st by auto
    then have "drop n it \<noteq> []" by (auto simp: batched_loop_Nil)
    then have big: "n < length it" by simp
    show ?thesis
    proof (cases i)
      case 0
      then show ?thesis using st big by simp
    next
      case (Suc j)
      then have "Suc j < length (batched_loop (drop n it) n)" using 1(3) st by simp
      then have "length (batched_loop (drop n it) n ! j) = n" using 1(1)[of "take n it" j] False 1(2) by simp
      then show ?thesis using st Suc by simp
    qed
  qed
qed

lemma batched_loop_last:
  "0 < n \<Longrightarrow> xs \<noteq> [] \<Longrightarrow>
   length (last (batched_loop xs n)) = (if length xs mod n = 0 then n else length xs mod n)"
proof (induction xs n rule: batched_loop.induct)
  case (1 it n)
  have st: "batched_loop it n = take n it # batched_loop (drop n it) n"
    using 1(2,3) by (simp add: batched_loop_step)
  show ?case
  proof (cases "drop n it = []")
    case True
    then have le: "length it \<le> n" by simp
    have "0 < length it" using 1(3) by simp
    then show ?thesis using st True le 1(2) by (cases "length it = n") (simp_all add: batched_loop_Nil)
  next
    case False
    then have big: "n < length it" by simp
    have ne: "batched_loop (drop n it) n \<noteq> []" using False 1(2) by (simp add: batched_loop_step)
    have ih: "length (last (batched_loop (drop n it) n)) = (if length (drop n it) mod n = 0 then n else length (drop n it) mod n)"
      using 1(1)[of "take n it"] 1(2,3) False by simp
    have "(length it - n) mod n = length it mod n" using big by (simp add: le_mod_geq)
    then show ?thesis using st ne ih by simp
  qed
qed

text \<open>
  Claim C7. With chunk size 10000, a finite stream of \<open>N\<close> examples is cut into
  \<open>ceil(N / 10000)\<close> batches whose concatenation is the stream; every batch but the
  last has 10000 examples, the last one has \<open>N mod 10000\<close> when that is not zero (and
  10000 otherwise), and the batch sizes add up to \<open>N\<close>. One file is written per batch.
\<close>

theorem batched_10000:
  "\<exists>batches. batched examples 10000 = Inr batches
     \<and> concat batches = examples
     \<and> length batches = (length examples + 9999) div 10000
     \<and> (\<forall>i. Suc i < length batches \<longrightarrow> length (batches ! i) = 10000)
     \<and> (examples \<noteq> [] \<longrightarrow> length (last batches)
           = (if length examples mod 10000 = 0 then 10000 else length examples mod 10000))
     \<and> sum_list (map length batches) = length examples"
proof -
  let ?bs = "batched_loop examples 10000"
  have pos: "(0::nat) < 10000" by simp
  have r: "batched examples 10000 = Inr ?bs" by (simp add: batched_def)
  have c: "concat ?bs = examples" using batched_loop_concat[OF pos] .
  have l: "length ?bs = (length examples + 9999) div 10000"
    using batched_loop_length[OF pos, of examples] by simp
  have s: "\<forall>i. Suc i < length ?bs \<longrightarrow> length (?bs ! i) = 10000"
    using batched_loop_sizes[OF pos] by blast
  have e: "examples \<noteq> [] \<longrightarrow> length (last ?bs)
           = (if length examples mod 10000 = 0 then 10000 else length examples mod 10000)"
    using batched_loop_last[OF pos] by blast
  have "sum_list (map length ?bs) = length (concat ?bs)" by (simp add: length_concat)
  then have t: "sum_list (map length ?bs) = length examples" using c by simp
  show ?thesis using r c l s e t by blast
qed

theorem batched_10000_witness:
  "\<exists>batches. batched (replicate 25000 (0::nat)) 10000 = Inr batches
     \<and> length batches = 3
     \<and> length (batches ! 0) = 10000 \<and> length (batches ! 1) = 10000
     \<and> length (last batches) = 5000
     \<and> sum_list (map length batches) = 25000"
proof -
  obtain batches where b: "batched (replicate 25000 (0::nat)) 10000 = Inr batches"
      "length batches = (length (replicate 25000 (0::nat)) + 9999) div 10000"
      "\<forall>i. Suc i < length batches \<longrightarrow> length (batches ! i) = 10000"
      "replicate 25000 (0::nat) \<noteq> [] \<longrightarrow> length (last batches)
           = (if length (replicate 25000 (0::nat)) mod 10000 = 0 then 10000
              else length (replicate 25000 (0::nat)) mod 10000)"
      "sum_list (map length batches) = length (replicate 25000 (0::nat))"
    using batched_10000[of "replicate 25000 (0::nat)"] by blast
  have l: "length batches = 3" using b(2) by simp
  have s0: "length (batches ! 0) = 10000" using b(3) l by simp
  have s1: "length (batches ! 1) = 10000" using b(3) l by simp
  have ne: "replicate 25000 (0::nat) \<noteq> []" by simp
  have la: "length (last batches) = 5000" using b(4) ne by simp
  have t: "sum_list (map length batches) = 25000" using b(5) by simp
  show ?thesis using b(1) l s0 s1 la t by blast
qed

subsection \<open>The oracle generator\<close>

lemma is_prohibited_description_None_rules:
  "is_prohibited_description agent tgt dw None = first_matching (prohibition_rules agent tgt dw)"
  by (simp add: is_prohibited_description_def prohibition_rules_def)

lemma generate_description_words_options_take1:
  "take (Suc 0) (generate_description_words_options s dw) = [(dw, target_object s)]"
  by (simp add: generate_description_words_options_def Let_def)

lemma generate_description_words_options_hd:
  "hd (generate_description_words_options s dw) = (dw, target_object s)"
  by (simp add: generate_description_words_options_def Let_def)

lemma support_instructions_differ:
  "(instr, tgt) \<in> set (support_instructions q opts combos any) \<Longrightarrow> instr \<noteq> q"
  by (auto simp: support_instructions_def)

lemma set_py_slice_to: "set (py_slice_to xs n) \<subseteq> set xs"
  by (auto simp: py_slice_to_def split: option.splits dest: in_set_takeD)

text \<open>
  Claim C1. Whatever the options are, no pair that the oracle returns has a support
  instruction equal to the query instruction. The random choice is any arrangement
  \<open>permutation n\<close> of the indices \<open>0, ..., n - 1\<close>.
\<close>

theorem oracle_never_emits_query:
  assumes perm: "\<forall>n. mset (permutation n) = mset [0..<n]"
    and res: "generate_relevant_instructions_gscan_oracle permutation query_instruction s
        vocabulary_colors vocabulary_nouns n_description_options demonstrate_target
        allow_demonstration_splits allow_any_example num_demos pick_random limit_verb_adverb
      = Inr result"
    and mem: "(instr, tgt) \<in> set result"
  shows "instr \<noteq> query_instruction"
proof -
  define supports where "supports =
     support_instructions query_instruction
       (py_slice_to
          (candidate_description_words_options query_instruction s vocabulary_colors
             vocabulary_nouns demonstrate_target allow_demonstration_splits allow_any_example)
          n_description_options)
       (adverb_verb_combos query_instruction limit_verb_adverb) allow_any_example"
  have cases: "result = [] \<or> result = map (\<lambda>i. supports ! i)
                     (py_slice_to (permutation (length supports)) (Some num_demos))
      \<or> result = py_slice_to supports (Some num_demos)"
    using res unfolding generate_relevant_instructions_gscan_oracle_def Let_def supports_def[symmetric]
    by (auto split: if_splits)
  have "mset (permutation (length supports)) = mset [0..<length supports]"
    using perm by simp
  then have "set (permutation (length supports)) = set [0..<length supports]"
    by (rule mset_eq_setD)
  then have "set (permutation (length supports)) = {0..<length supports}" by simp
  then have "set (py_slice_to (permutation (length supports)) (Some num_demos)) \<subseteq> {0..<length supports}"
    using set_py_slice_to[of "permutation (length supports)" "Some num_demos"] by simp
  then have "set (map (\<lambda>i. supports ! i) (py_slice_to (permutation (length supports)) (Some num_demos)))
       \<subseteq> set supports" by auto
  moreover have "set (py_slice_to supports (Some num_demos)) \<subseteq> set supports"
    by (rule set_py_slice_to)
  ultimately have "set result \<subseteq> set supports" using cases by (elim disjE) simp_all
  then have "(instr, tgt) \<in> set supports" using mem by (rule subsetD)
  then show ?thesis unfolding supports_def by (rule support_instructions_differ)
qed

theorem oracle_never_emits_query_witness:
  "generate_relevant_instructions_gscan_oracle (\<lambda>n. rev [0..<n]) example_query
       example_situation example_colors example_nouns (Some 1) True (Some [''C'']) False 3
       True True
     = Inr [([''pull'', ''a'', ''big'', ''red'', ''circle''], example_alternative),
            ([''push'', ''a'', ''big'', ''red'', ''circle''], example_alternative),
            ([''walk'', ''to'', ''a'', ''big'', ''red'', ''circle''], example_alternative)]
   \<and> [''pull'', ''a'', ''big'', ''red'', ''circle''] \<noteq> example_query
   \<and> [''push'', ''a'', ''big'', ''red'', ''circle''] \<noteq> example_query
   \<and> [''walk'', ''to'', ''a'', ''big'', ''red'', ''circle''] \<noteq> example_query"
proof -
  have p: "\<forall>n. mset ((\<lambda>n. rev [0..<n]) n) = mset [0..<n]" by simp
  have r: "generate_relevant_instructions_gscan_oracle (\<lambda>n. rev [0..<n]) example_query
       example_situation example_colors example_nouns (Some 1) True (Some [''C'']) False 3
       True True
     = Inr [([''pull'', ''a'', ''big'', ''red'', ''circle''], example_alternative),
            ([''push'', ''a'', ''big'', ''red'', ''circle''], example_alternative),
            ([''walk'', ''to'', ''a'', ''big'', ''red'', ''circle''], example_alternative)]"
    by code_simp
  note w = oracle_never_emits_query[OF p r]
  have "[''pull'', ''a'', ''big'', ''red'', ''circle''] \<noteq> example_query"
    by (rule w[of _ example_alternative]) simp
  moreover have "[''push'', ''a'', ''big'', ''red'', ''circle''] \<noteq> example_query"
    by (rule w[of _ example_alternative]) simp
  moreover have "[''walk'', ''to'', ''a'', ''big'', ''red'', ''circle''] \<noteq> example_query"
    by (rule w[of _ example_alternative]) simp
  ultimately show ?thesis using r by simp
qed

text \<open>
  Claim C10. When any example is not allowed, the target is to be demonstrated and an
  alternative survives the filter, the target's own check runs without a waiver: the
  target is dropped from the candidate options exactly when one of the rules B to F
  holds for it, whatever letters \<open>allow_demonstration_splits\<close> waives. The waiver list
  only enters the filter of the alternatives.
\<close>

theorem target_demoted_without_waiver:
  assumes "\<not> allow_any_example" and "demonstrate_target"
    and "filtered_sorted_other_description_words query_instruction s vocabulary_colors
           vocabulary_nouns allow_demonstration_splits allow_any_example \<noteq> []"
  shows "candidate_description_words_options query_instruction s vocabulary_colors
           vocabulary_nouns demonstrate_target allow_demonstration_splits allow_any_example
       = (if first_matching (prohibition_rules (agent_pos s) (target_object s)
               (description_words_of vocabulary_colors vocabulary_nouns query_instruction)) = None
          then [(description_words_of vocabulary_colors vocabulary_nouns query_instruction,
                 target_object s)]
          else [])
         @ filtered_sorted_other_description_words query_instruction s vocabulary_colors
             vocabulary_nouns allow_demonstration_splits allow_any_example"
  using assms
  by (simp add: candidate_description_words_options_def target_description_words_def Let_def
      generate_description_words_options_take1 generate_description_words_options_hd
      is_prohibited_description_None_rules)

theorem target_demoted_without_waiver_witness:
  "filtered_sorted_other_description_words example_query example_situation example_colors
       example_nouns (Some [''C'']) False
     = [([''big'', ''red'', ''circle''], example_alternative)]
   \<and> is_prohibited_description (agent_pos example_situation) example_target
        [''red'', ''square''] (Some [''C'']) = None
   \<and> candidate_description_words_options example_query example_situation example_colors
        example_nouns True (Some [''C'']) False
     = [([''big'', ''red'', ''circle''], example_alternative)]"
proof -
  have f: "filtered_sorted_other_description_words example_query example_situation
       example_colors example_nouns (Some [''C'']) False
     = [([''big'', ''red'', ''circle''], example_alternative)]"
    by code_simp
  have m: "first_matching (prohibition_rules (agent_pos example_situation)
       (target_object example_situation)
       (description_words_of example_colors example_nouns example_query)) = Some ''C''"
    by code_simp
  have w: "is_prohibited_description (agent_pos example_situation) example_target
        [''red'', ''square''] (Some [''C'']) = None"
    by code_simp
  have "candidate_description_words_options example_query example_situation example_colors
        example_nouns True (Some [''C'']) False
     = [([''big'', ''red'', ''circle''], example_alternative)]"
    using target_demoted_without_waiver[of False True example_query example_situation
        example_colors example_nouns "Some [''C'']"] f m by simp
  then show ?thesis using f w by simp
qed

subsection \<open>The command index and the binary search\<close>

lemma bucket_of_append_index:
  "bucket_of (append_index key i m) k = (if k = key then bucket_of m k @ [i] else bucket_of m k)"
  by (simp add: bucket_of_def append_index_def)

lemma append_index_None:
  "append_index key i m k = None \<longleftrightarrow> k \<noteq> key \<and> m k = None"
  by (simp add: append_index_def)

lemma fold_append_index_bucket:
  "bucket_of (fold (\<lambda>(index, ex). append_index (f ex) index) (enumerate n xs) m) k
   = bucket_of m k @ map fst (filter (\<lambda>(i, ex). f ex = k) (enumerate n xs))"
  by (induction xs arbitrary: n m) (simp_all add: bucket_of_append_index)

lemma fold_append_index_None:
  "fold (\<lambda>(index, ex). append_index (f ex) index) (enumerate n xs) m k = None
   \<longleftrightarrow> m k = None \<and> filter (\<lambda>(i, ex). f ex = k) (enumerate n xs) = []"
  by (induction xs arbitrary: n m) (auto simp: append_index_None)

lemma enumerate_filter_indices:
  "map fst (filter (\<lambda>(i, ex). P ex) (enumerate n xs))
   = filter (\<lambda>i. P (xs ! (i - n))) [n..<n + length xs]"
proof (induction xs arbitrary: n)
  case Nil
  then show ?case by simp
next
  case (Cons x xs)
  have nth: "(x # xs) ! (i - n) = xs ! (i - Suc n)" if "i \<in> set [Suc n..<Suc n + length xs]" for i
  proof -
    have "i - n = Suc (i - Suc n)" using that by auto
    then show ?thesis by simp
  qed
  have "filter (\<lambda>i. P ((x # xs) ! (i - n))) [Suc n..<Suc n + length xs]
        = filter (\<lambda>i. P (xs ! (i - Suc n))) [Suc n..<Suc n + length xs]"
    using nth by (intro filter_cong[OF refl]) simp
  moreover have "[n..<n + length (x # xs)] = n # [Suc n..<Suc n + length xs]"
    by (simp add: upt_conv_Cons del: upt_Suc)
  ultimately show ?case using Cons.IH[of "Suc n"] by (simp del: upt_Suc)
qed

lemma sort_indices_by_bucket:
  "bucket_of (sort_indices_by f xs) k = filter (\<lambda>i. f (xs ! i) = k) [0..<length xs]"
proof -
  have "bucket_of (sort_indices_by f xs) k
        = bucket_of Map.empty k @ map fst (filter (\<lambda>(i, ex). f ex = k) (enumerate 0 xs))"
    unfolding sort_indices_by_def by (rule fold_append_index_bucket)
  moreover have "bucket_of Map.empty k = []" by (simp add: bucket_of_def)
  ultimately show ?thesis using enumerate_filter_indices[of "\<lambda>ex. f ex = k" 0 xs] by simp
qed

lemma sort_indices_by_lookup:
  "sort_indices_by f xs k
   = (if filter (\<lambda>i. f (xs ! i) = k) [0..<length xs] = [] then None
      else Some (filter (\<lambda>i. f (xs ! i) = k) [0..<length xs]))"
proof (cases "sort_indices_by f xs k")
  case None
  then have "filter (\<lambda>(i, ex). f ex = k) (enumerate 0 xs) = []"
    by (simp add: sort_indices_by_def fold_append_index_None)
  then have "map fst (filter (\<lambda>(i, ex). f ex = k) (enumerate 0 xs)) = []" by simp
  then have "filter (\<lambda>i. f (xs ! i) = k) [0..<length xs] = []"
    using enumerate_filter_indices[of "\<lambda>ex. f ex = k" 0 xs] by simp
  then show ?thesis using None by simp
next
  case (Some b)
  then have ne: "filter (\<lambda>(i, ex). f ex = k) (enumerate 0 xs) \<noteq> []"
    using fold_append_index_None[of f 0 xs Map.empty k] by (simp add: sort_indices_by_def)
  then have "map fst (filter (\<lambda>(i, ex). f ex = k) (enumerate 0 xs)) \<noteq> []" by simp
  then have ne': "filter (\<lambda>i. f (xs ! i) = k) [0..<length xs] \<noteq> []"
    using enumerate_filter_indices[of "\<lambda>ex. f ex = k" 0 xs] by simp
  have "b = bucket_of (sort_indices_by f xs) k" using Some by (simp add: bucket_of_def)
  then have "b = filter (\<lambda>i. f (xs ! i) = k) [0..<length xs]"
    by (simp add: sort_indices_by_bucket)
  then show ?thesis using Some ne' by simp
qed

lemma bisect_left_loop_bounds:
  "lo \<le> hi \<Longrightarrow> lo \<le> bisect_left_loop a x lo hi \<and> bisect_left_loop a x lo hi \<le> hi"
proof (induction a x lo hi rule: bisect_left_loop.induct)
  case (1 a x lo hi)
  show ?case
  proof (cases "lo < hi")
    case False
    then show ?thesis using 1(3) by (simp add: bisect_left_loop.simps)
  next
    case True
    let ?mid = "(lo + hi) div 2"
    have m: "lo \<le> ?mid" "?mid < hi" using True by auto
    show ?thesis
    proof (cases "a ! ?mid < x")
      case lt: True
      have "?mid + 1 \<le> bisect_left_loop a x (?mid + 1) hi \<and> bisect_left_loop a x (?mid + 1) hi \<le> hi"
        using 1(1)[of ?mid] True lt m by simp
      moreover have "bisect_left_loop a x lo hi = bisect_left_loop a x (?mid + 1) hi"
        using True lt by (subst bisect_left_loop.simps) (simp add: Let_def)
      ultimately show ?thesis using m by simp
    next
      case ge: False
      have "lo \<le> bisect_left_loop a x lo ?mid \<and> bisect_left_loop a x lo ?mid \<le> ?mid"
        using 1(2)[of ?mid] True ge m by simp
      moreover have "bisect_left_loop a x lo hi = bisect_left_loop a x lo ?mid"
        using True ge by (subst bisect_left_loop.simps) (simp add: Let_def)
      ultimately show ?thesis using m by simp
    qed
  qed
qed

lemma bisect_left_loop_split:
  "sorted a \<Longrightarrow> lo \<le> hi \<Longrightarrow> hi \<le> length a
   \<Longrightarrow> (\<forall>j < lo. a ! j < x) \<Longrightarrow> (\<forall>j. hi \<le> j \<and> j < length a \<longrightarrow> x \<le> a ! j)
   \<Longrightarrow> (\<forall>j < bisect_left_loop a x lo hi. a ! j < x)
       \<and> (\<forall>j. bisect_left_loop a x lo hi \<le> j \<and> j < length a \<longrightarrow> x \<le> a ! j)"
proof (induction a x lo hi rule: bisect_left_loop.induct)
  case (1 a x lo hi)
  show ?case
  proof (cases "lo < hi")
    case False
    then have "bisect_left_loop a x lo hi = lo" by (simp add: bisect_left_loop.simps)
    moreover have "lo = hi" using False 1(4) by simp
    ultimately show ?thesis using 1(6,7) by simp
  next
    case True
    let ?mid = "(lo + hi) div 2"
    have m: "lo \<le> ?mid" "?mid < hi" using True by auto
    show ?thesis
    proof (cases "a ! ?mid < x")
      case lt: True
      have below: "\<forall>j < ?mid + 1. a ! j < x"
      proof (intro allI impI)
        fix j assume "j < ?mid + 1"
        then have "j \<le> ?mid" by simp
        then have "a ! j \<le> a ! ?mid" using 1(3) m 1(5) by (simp add: sorted_nth_mono)
        then show "a ! j < x" using lt by simp
      qed
      have "bisect_left_loop a x lo hi = bisect_left_loop a x (?mid + 1) hi"
        using True lt by (subst bisect_left_loop.simps) (simp add: Let_def)
      then show ?thesis using 1(1)[of ?mid] True lt m below 1(3,5,7) by simp
    next
      case ge: False
      have above: "\<forall>j. ?mid \<le> j \<and> j < length a \<longrightarrow> x \<le> a ! j"
      proof (intro allI impI)
        fix j assume j: "?mid \<le> j \<and> j < length a"
        then have "a ! ?mid \<le> a ! j" using 1(3) by (simp add: sorted_nth_mono)
        then show "x \<le> a ! j" using ge by simp
      qed
      have "bisect_left_loop a x lo hi = bisect_left_loop a x lo ?mid"
        using True ge by (subst bisect_left_loop.simps) (simp add: Let_def)
      then show ?thesis using 1(2)[of ?mid] True ge m above 1(3,5,6) by simp
    qed
  qed
qed

lemma find_in_sorted_list_iff:
  assumes "sorted a"
  shows "find_in_sorted_list a x \<longleftrightarrow> x \<in> set a"
proof -
  let ?i = "bisect_left a x"
  have b: "?i \<le> length a"
    using bisect_left_loop_bounds[of 0 "length a" a x] by (simp add: bisect_left_def)
  have s: "(\<forall>j < ?i. a ! j < x) \<and> (\<forall>j. ?i \<le> j \<and> j < length a \<longrightarrow> x \<le> a ! j)"
    using bisect_left_loop_split[of a 0 "length a" x] assms by (simp add: bisect_left_def)
  show ?thesis
  proof
    assume "find_in_sorted_list a x"
    then have "?i \<noteq> length a" "a ! ?i = x" by (simp_all add: find_in_sorted_list_def Let_def)
    then show "x \<in> set a" using b by (metis le_neq_implies_less nth_mem)
  next
    assume "x \<in> set a"
    then obtain j where j: "j < length a" "a ! j = x" by (auto simp: in_set_conv_nth)
    have "\<not> j < ?i" using s j by auto
    then have ij: "?i \<le> j" by simp
    then have lt: "?i < length a" using j by simp
    have "x \<le> a ! ?i" using s lt by simp
    moreover have "a ! ?i \<le> a ! j" using sorted_nth_mono[OF assms ij j(1)] .
    ultimately have "a ! ?i = x" using j by simp
    then show "find_in_sorted_list a x" using lt by (simp add: find_in_sorted_list_def Let_def)
  qed
qed

lemma sort_indices_by_command_lookup:
  "sort_indices_by_command examples k
   = (if filter (\<lambda>i. command_key_of (examples ! i) = k) [0..<length examples] = [] then None
      else Some (filter (\<lambda>i. command_key_of (examples ! i) = k) [0..<length examples]))"
  unfolding sort_indices_by_command_def by (rule sort_indices_by_lookup)

lemma sorted_wrt_less_filter_upt: "sorted_wrt (<) (filter P [0..<n])"
  by (rule sorted_wrt_filter) simp

lemma exclude_same_command_eq:
  assumes "\<forall>p \<in> set possible_demos. p < length examples"
  shows "exclude_same_command (sort_indices_by_command examples) command_key possible_demos
     = (if possible_demos \<noteq> [] \<and> sort_indices_by_command examples command_key = None
        then Inl KeyError
        else Inr (filter (\<lambda>p. command_key_of (examples ! p) \<noteq> command_key) possible_demos))"
proof (cases "possible_demos = []")
  case True
  then show ?thesis by (simp add: exclude_same_command_def)
next
  case False
  show ?thesis
  proof (cases "sort_indices_by_command examples command_key")
    case None
    then show ?thesis using False by (simp add: exclude_same_command_def)
  next
    case (Some bucket)
    then have b: "bucket = filter (\<lambda>i. command_key_of (examples ! i) = command_key)
                     [0..<length examples]"
      by (simp add: sort_indices_by_command_lookup split: if_splits)
    then have "sorted_wrt (<) bucket" by (simp add: sorted_wrt_less_filter_upt)
    then have "sorted bucket" by (rule strict_sorted_imp_sorted)
    then have f: "find_in_sorted_list bucket p \<longleftrightarrow> p \<in> set bucket" for p
      by (rule find_in_sorted_list_iff)
    have g: "(\<not> find_in_sorted_list bucket p) = (command_key_of (examples ! p) \<noteq> command_key)"
      if "p \<in> set possible_demos" for p
    proof -
      have "p < length examples" using assms that by simp
      then have "p \<in> set bucket \<longleftrightarrow> command_key_of (examples ! p) = command_key"
        unfolding b by simp
      then show ?thesis using f by simp
    qed
    have "filter (\<lambda>p. \<not> find_in_sorted_list bucket p) possible_demos
          = filter (\<lambda>p. command_key_of (examples ! p) \<noteq> command_key) possible_demos"
      using g by (intro filter_cong[OF refl])
    then show ?thesis using False Some by (simp add: exclude_same_command_def)
  qed
qed

text \<open>
  The index holds, under each command text, exactly the indices of the examples with
  that text, in increasing order, and nothing under any other key. Every bucket is
  strictly increasing, so \<open>find_in_sorted_list\<close> on a bucket is membership in it. The
  exclusion step, on candidates that are indices of the corpus, keeps exactly the
  candidates whose command text differs from the query's when the query's text is a key
  of the index or there is no candidate, and raises KeyError otherwise.
\<close>

lemma command_index_exclusion:
  "(\<forall>k. sort_indices_by_command examples k
         = (if \<exists>i < length examples. command_key_of (examples ! i) = k
            then Some (filter (\<lambda>i. command_key_of (examples ! i) = k) [0..<length examples])
            else None))
   \<and> (\<forall>k bucket. sort_indices_by_command examples k = Some bucket \<longrightarrow>
       sorted_wrt (<) bucket
       \<and> set bucket = {i. i < length examples \<and> command_key_of (examples ! i) = k}
       \<and> (\<forall>x. find_in_sorted_list bucket x \<longleftrightarrow> x \<in> set bucket))
   \<and> (\<forall>command_key possible_demos.
         (\<forall>p \<in> set possible_demos. p < length examples) \<longrightarrow>
         exclude_same_command (sort_indices_by_command examples) command_key possible_demos
         = (if possible_demos \<noteq> [] \<and> sort_indices_by_command examples command_key = None
            then Inl KeyError
            else Inr (filter (\<lambda>p. command_key_of (examples ! p) \<noteq> command_key)
                        possible_demos)))"
proof (intro conjI allI impI)
  fix k
  have "filter (\<lambda>i. command_key_of (examples ! i) = k) [0..<length examples] = []
        \<longleftrightarrow> \<not> (\<exists>i < length examples. command_key_of (examples ! i) = k)"
    by (auto simp: filter_empty_conv)
  then show "sort_indices_by_command examples k
         = (if \<exists>i < length examples. command_key_of (examples ! i) = k
            then Some (filter (\<lambda>i. command_key_of (examples ! i) = k) [0..<length examples])
            else None)"
    by (simp add: sort_indices_by_command_lookup)
next
  fix k bucket
  assume "sort_indices_by_command examples k = Some bucket"
  then have b: "bucket = filter (\<lambda>i. command_key_of (examples ! i) = k) [0..<length examples]"
    by (simp add: sort_indices_by_command_lookup split: if_splits)
  show s: "sorted_wrt (<) bucket" using b by (simp add: sorted_wrt_less_filter_upt)
  show "set bucket = {i. i < length examples \<and> command_key_of (examples ! i) = k}"
    using b by auto
  fix x
  have "sorted bucket" using s by (rule strict_sorted_imp_sorted)
  then show "find_in_sorted_list bucket x \<longleftrightarrow> x \<in> set bucket"
    by (rule find_in_sorted_list_iff)
next
  fix command_key possible_demos
  assume "\<forall>p \<in> set possible_demos. p < length examples"
  then show "exclude_same_command (sort_indices_by_command examples) command_key possible_demos
         = (if possible_demos \<noteq> [] \<and> sort_indices_by_command examples command_key = None
            then Inl KeyError
            else Inr (filter (\<lambda>p. command_key_of (examples ! p) \<noteq> command_key)
                        possible_demos))"
    by (rule exclude_same_command_eq)
qed

text \<open>
  Claim C8 at a concrete input. The index is built from the three examples of the
  corpus, and the query "pull a red square" has a command text that none of them has.
  No candidate shares the query's text, so excluding exactly the candidates that share
  it keeps the three candidates of the target's position. The code reads the bucket of
  the query's text from a plain dictionary instead, which raises KeyError, and the
  strategy ends with that error. The lookups of the other indices are made on
  \<^verbatim>\<open>defaultdict\<close>s, and the strategies that look up a command text of their own choice
  test \<^verbatim>\<open>key not in sorted_example_indices_by_command\<close> first.
\<close>

theorem command_lookup_missing_key_raises:
  "sort_indices_by_command example_corpus ''walk to a red square'' = Some [0, 2]
   \<and> sort_indices_by_command example_corpus ''push a red circle'' = Some [1]
   \<and> sort_indices_by_command example_corpus ''pull a red square'' = None
   \<and> filter (\<lambda>p. command_key_of (example_corpus ! p) = ''pull a red square'') [0, 1, 2] = []
   \<and> bucket_of (sort_indices_by_target_positions example_corpus)
        (column (position (target_object example_situation)),
         row (position (target_object example_situation))) = [0, 1, 2]
   \<and> exclude_same_command (sort_indices_by_command example_corpus) ''pull a red square''
        [0, 1, 2] = Inl KeyError
   \<and> find_supports_with_any_target_object_in_same_position example_draw
        [''pull'', ''a'', ''red'', ''square''] example_situation example_payload 5
      = Inl KeyError"
  by code_simp

subsection \<open>Lookup strategies\<close>

lemma random_choice_replace_singleton:
  "0 < n \<Longrightarrow> random_choice_replace draw [p] (min (int (length [p])) n) = Inr [p]"
  by (simp add: random_choice_replace_def min_def)




text \<open>
  Claim C6 at a concrete input. The index of the corpus has the two keys
  "walk to a red square" and "push a red circle"; for the query "walk to a red square"
  and \<open>num_demos = 1\<close> the key "push a red circle" is drawn, but the loop looks up
  "p u s h   a   r e d   c i r c l e", which is no key, and returns no support at all.
\<close>

theorem random_find_matching_returns_nothing:
  "random_choice_no_replace example_permutation
      (filter (\<lambda>k. k \<noteq> join_space example_query) example_key_order) 1
     = Inr [''push a red circle'']
   \<and> sort_indices_by_command example_corpus ''push a red circle'' = Some [1]
   \<and> join_space_chars ''push a red circle'' = ''p u s h   a   r e d   c i r c l e''
   \<and> sort_indices_by_command example_corpus (join_space_chars ''push a red circle'') = None
   \<and> generate_random_instructions_find_support_in_any_layout example_permutation example_draw
        example_key_order example_query
        (sort_indices_by_command example_corpus, example_corpus) 1
      = Inr ([], [], [])"
  by code_simp

subsection \<open>Vocabulary\<close>

lemma dict_keys_distinct: "distinct (dict_keys d)"
  by (simp add: dict_keys_def)

lemma shared_word_Nil: "\<not> shared_word []"
  by (simp add: shared_word_def)

lemma shared_word_Cons:
  "shared_word (k # ks) \<longleftrightarrow> (\<exists>w \<in> set k. \<exists>k' \<in> set ks. w \<in> set k') \<or> shared_word ks"
proof
  assume "shared_word (k # ks)"
  then obtain i j w where h: "i < j" "j < length (k # ks)" "w \<in> set ((k # ks) ! i)"
      "w \<in> set ((k # ks) ! j)"
    unfolding shared_word_def by blast
  obtain j' where j': "j = Suc j'" using h(1) by (cases j) auto
  show "(\<exists>w \<in> set k. \<exists>k' \<in> set ks. w \<in> set k') \<or> shared_word ks"
  proof (cases i)
    case 0
    have "ks ! j' \<in> set ks" using h(2) j' by simp
    then show ?thesis using h(3,4) 0 j' by auto
  next
    case (Suc i')
    then have "i' < j'" "j' < length ks" "w \<in> set (ks ! i')" "w \<in> set (ks ! j')"
      using h j' by simp_all
    then have "shared_word ks" unfolding shared_word_def by blast
    then show ?thesis by simp
  qed
next
  assume "(\<exists>w \<in> set k. \<exists>k' \<in> set ks. w \<in> set k') \<or> shared_word ks"
  then show "shared_word (k # ks)"
  proof
    assume "\<exists>w \<in> set k. \<exists>k' \<in> set ks. w \<in> set k'"
    then obtain w k' where h: "w \<in> set k" "k' \<in> set ks" "w \<in> set k'" by blast
    then obtain j where j: "j < length ks" "ks ! j = k'" by (auto simp: in_set_conv_nth)
    have "0 < Suc j \<and> Suc j < length (k # ks) \<and> w \<in> set ((k # ks) ! 0)
            \<and> w \<in> set ((k # ks) ! Suc j)"
      using h j by simp
    then show ?thesis unfolding shared_word_def by blast
  next
    assume "shared_word ks"
    then obtain i j w where h: "i < j" "j < length ks" "w \<in> set (ks ! i)" "w \<in> set (ks ! j)"
      unfolding shared_word_def by blast
    then have "Suc i < Suc j \<and> Suc j < length (k # ks) \<and> w \<in> set ((k # ks) ! Suc i)
            \<and> w \<in> set ((k # ks) ! Suc j)"
      by simp
    then show ?thesis unfolding shared_word_def by blast
  qed
qed

lemma distinct_concat_shared_word:
  "(\<forall>k \<in> set ks. distinct k) \<Longrightarrow> distinct (concat ks) \<longleftrightarrow> \<not> shared_word ks"
proof (induction ks)
  case Nil
  then show ?case by (simp add: shared_word_Nil)
next
  case (Cons k ks)
  then show ?case by (auto simp: shared_word_Cons)
qed

lemma length_card_distinct: "length xs \<noteq> card (set xs) \<longleftrightarrow> \<not> distinct xs"
  using card_distinct distinct_card by metis

lemma all_words_concat:
  "dict_keys (dict_at h a) @ dict_keys (dict_at h b) @ dict_keys (dict_at h c)
     @ dict_keys (dict_at h d) @ dict_keys (dict_at h e) @ dict_keys (dict_at h f)
   = concat (category_keys a b c d e f h)"
  by (simp add: category_keys_def)

lemma Vocabulary_init_fails:
  "Vocabulary_init a b c d e f h = Inl AssertionError
   \<longleftrightarrow> shared_word (category_keys a b c d e f h)"
proof -
  have "\<forall>k \<in> set (category_keys a b c d e f h). distinct k"
    by (simp add: category_keys_def dict_keys_distinct)
  then have "distinct (concat (category_keys a b c d e f h))
             \<longleftrightarrow> \<not> shared_word (category_keys a b c d e f h)"
    by (rule distinct_concat_shared_word)
  then show ?thesis
    unfolding Vocabulary_init_def Let_def all_words_concat length_card_distinct
    by (simp split: if_splits prod.splits)
qed

lemma Vocabulary_init_only_assertion:
  "Vocabulary_init a b c d e f h = Inl err \<Longrightarrow> err = AssertionError"
  by (simp add: Vocabulary_init_def Let_def split: if_splits prod.splits)

lemma Vocabulary_init_success:
  assumes "Vocabulary_init a b c d e f h = Inr (v, h')"
  shows "v_intransitive_verbs v = a \<and> v_transitive_verbs v = b \<and> v_adverbs v = c
         \<and> v_nouns v = d \<and> v_color_adjectives v = e \<and> v_size_adjectives v = f"
    and "\<forall>r < dicts_allocated h. dict_at h' r = dict_at h r"
  using assms
  by (auto simp: Vocabulary_init_def Let_def new_list_def new_dict_def
      split: if_splits prod.splits)

lemma keys_list_copy_returns_copy:
  "returns_copy h (keys_list_copy d h) (dict_keys (dict_at h d))"
  by (simp add: returns_copy_def keys_list_copy_def list_copy_def new_list_def Let_def)

lemma values_list_copy_returns_copy:
  "returns_copy h (values_list_copy d h) (dict_values (dict_at h d))"
  by (simp add: returns_copy_def values_list_copy_def list_copy_def new_list_def Let_def)

lemma dict_at_list_copy [simp]:
  "dict_at (snd (keys_list_copy d h)) = dict_at h"
  "dict_at (snd (values_list_copy d h)) = dict_at h"
  by (simp_all add: keys_list_copy_def values_list_copy_def list_copy_def new_list_def Let_def)

lemma dict_at_client_step: "dict_at (client_step v a h) = dict_at h"
  by (cases a)
    (simp_all add: get_intransitive_verbs_def get_transitive_verbs_def get_adverbs_def
      get_nouns_def get_color_adjectives_def get_size_adjectives_def get_semantic_shapes_def
      get_semantic_colors_def translate_word_def translate_meaning_def n_attributes_def
      to_representation_def list_append_def)

lemma dict_at_client_run: "dict_at (client_run v actions h) = dict_at h"
  unfolding client_run_def
  by (induction actions arbitrary: h) (simp_all add: dict_at_client_step)

lemma category_sets_cong: "dict_at h' = dict_at h \<Longrightarrow> category_sets v h' = category_sets v h"
  by (simp add: category_sets_def category_keys_def)

text \<open>
  Claim C9, as amended. The construction of a vocabulary fails if and only if some
  surface word is a key of more than one of the six bindings. When no word is shared it
  succeeds: the object holds the six dictionaries it was given, which
  \<^verbatim>\<open>to_representation\<close> hands out again; its category sets are the key lists that
  these dictionaries, allocated before the call, had then; no sequence of method calls
  and of changes to lists changes the category sets; and every getter returns a copy, a
  new list of the keys (or values) that the dictionary has at the time of the call.
\<close>

theorem Vocabulary_init_fails_iff_shared_word:
  "((\<exists>e. Vocabulary_init intransitive_verbs transitive_verbs adverbs nouns color_adjectives
            size_adjectives h = Inl e)
     \<longleftrightarrow> shared_word (category_keys intransitive_verbs transitive_verbs adverbs nouns
                         color_adjectives size_adjectives h))
   \<and> (\<not> shared_word (category_keys intransitive_verbs transitive_verbs adverbs nouns
                         color_adjectives size_adjectives h)
        \<longrightarrow> (\<exists>v h'. Vocabulary_init intransitive_verbs transitive_verbs adverbs nouns
                    color_adjectives size_adjectives h = Inr (v, h')
               \<and> to_representation v h'
                   = ([(''intransitive_verbs'', intransitive_verbs),
                       (''transitive_verbs'', transitive_verbs), (''nouns'', nouns),
                       (''adverbs'', adverbs), (''color_adjectives'', color_adjectives),
                       (''size_adjectives'', size_adjectives)], h')
               \<and> ((\<forall>r \<in> {intransitive_verbs, transitive_verbs, adverbs, nouns,
                           color_adjectives, size_adjectives}. r < dicts_allocated h)
                    \<longrightarrow> category_sets v h'
                        = category_keys intransitive_verbs transitive_verbs adverbs nouns
                            color_adjectives size_adjectives h)
               \<and> (\<forall>actions. category_sets v (client_run v actions h') = category_sets v h')
               \<and> (\<forall>g. returns_copy g (get_intransitive_verbs v g)
                          (dict_keys (dict_at g intransitive_verbs))
                    \<and> returns_copy g (get_transitive_verbs v g)
                          (dict_keys (dict_at g transitive_verbs))
                    \<and> returns_copy g (get_adverbs v g) (dict_keys (dict_at g adverbs))
                    \<and> returns_copy g (get_nouns v g) (dict_keys (dict_at g nouns))
                    \<and> returns_copy g (get_color_adjectives v g)
                          (dict_keys (dict_at g color_adjectives))
                    \<and> returns_copy g (get_size_adjectives v g)
                          (dict_keys (dict_at g size_adjectives))
                    \<and> returns_copy g (get_semantic_shapes v g) (dict_values (dict_at g nouns))
                    \<and> returns_copy g (get_semantic_colors v g)
                          (dict_values (dict_at g color_adjectives)))))"
proof (intro conjI impI)
  let ?r = "Vocabulary_init intransitive_verbs transitive_verbs adverbs nouns color_adjectives
            size_adjectives h"
  let ?s = "shared_word (category_keys intransitive_verbs transitive_verbs adverbs nouns
                         color_adjectives size_adjectives h)"
  show "(\<exists>e. ?r = Inl e) \<longleftrightarrow> ?s"
    using Vocabulary_init_only_assertion[of intransitive_verbs transitive_verbs adverbs nouns
        color_adjectives size_adjectives h]
      Vocabulary_init_fails[of intransitive_verbs transitive_verbs adverbs nouns
        color_adjectives size_adjectives h] by blast
  assume a: "\<not> ?s"
  then have ok: "?r \<noteq> Inl AssertionError"
    by (simp add: Vocabulary_init_fails)
  then obtain v h' where v: "?r = Inr (v, h')"
    using Vocabulary_init_only_assertion[of intransitive_verbs transitive_verbs adverbs nouns
        color_adjectives size_adjectives h] by (cases ?r) auto
  note f = Vocabulary_init_success(1)[OF v]
  note d = Vocabulary_init_success(2)[OF v]
  have c: "(\<forall>r \<in> {intransitive_verbs, transitive_verbs, adverbs, nouns,
                  color_adjectives, size_adjectives}. r < dicts_allocated h)
           \<longrightarrow> category_sets v h'
               = category_keys intransitive_verbs transitive_verbs adverbs nouns
                   color_adjectives size_adjectives h"
    using f d by (simp add: category_sets_def category_keys_def)
  have i: "category_sets v (client_run v actions h') = category_sets v h'" for actions
    by (rule category_sets_cong) (rule dict_at_client_run)
  have g: "returns_copy g (get_intransitive_verbs v g) (dict_keys (dict_at g intransitive_verbs))
         \<and> returns_copy g (get_transitive_verbs v g) (dict_keys (dict_at g transitive_verbs))
         \<and> returns_copy g (get_adverbs v g) (dict_keys (dict_at g adverbs))
         \<and> returns_copy g (get_nouns v g) (dict_keys (dict_at g nouns))
         \<and> returns_copy g (get_color_adjectives v g) (dict_keys (dict_at g color_adjectives))
         \<and> returns_copy g (get_size_adjectives v g) (dict_keys (dict_at g size_adjectives))
         \<and> returns_copy g (get_semantic_shapes v g) (dict_values (dict_at g nouns))
         \<and> returns_copy g (get_semantic_colors v g) (dict_values (dict_at g color_adjectives))"
    for g
    using f keys_list_copy_returns_copy values_list_copy_returns_copy
    by (simp add: get_intransitive_verbs_def get_transitive_verbs_def get_adverbs_def
        get_nouns_def get_color_adjectives_def get_size_adjectives_def get_semantic_shapes_def
        get_semantic_colors_def)
  have t: "to_representation v h'
           = ([(''intransitive_verbs'', intransitive_verbs),
               (''transitive_verbs'', transitive_verbs), (''nouns'', nouns),
               (''adverbs'', adverbs), (''color_adjectives'', color_adjectives),
               (''size_adjectives'', size_adjectives)], h')"
    using f by (simp add: to_representation_def)
  show "\<exists>v h'. ?r = Inr (v, h')
               \<and> to_representation v h'
                   = ([(''intransitive_verbs'', intransitive_verbs),
                       (''transitive_verbs'', transitive_verbs), (''nouns'', nouns),
                       (''adverbs'', adverbs), (''color_adjectives'', color_adjectives),
                       (''size_adjectives'', size_adjectives)], h')
               \<and> ((\<forall>r \<in> {intransitive_verbs, transitive_verbs, adverbs, nouns,
                           color_adjectives, size_adjectives}. r < dicts_allocated h)
                    \<longrightarrow> category_sets v h'
                        = category_keys intransitive_verbs transitive_verbs adverbs nouns
                            color_adjectives size_adjectives h)
               \<and> (\<forall>actions. category_sets v (client_run v actions h') = category_sets v h')
               \<and> (\<forall>g. returns_copy g (get_intransitive_verbs v g)
                          (dict_keys (dict_at g intransitive_verbs))
                    \<and> returns_copy g (get_transitive_verbs v g)
                          (dict_keys (dict_at g transitive_verbs))
                    \<and> returns_copy g (get_adverbs v g) (dict_keys (dict_at g adverbs))
                    \<and> returns_copy g (get_nouns v g) (dict_keys (dict_at g nouns))
                    \<and> returns_copy g (get_color_adjectives v g)
                          (dict_keys (dict_at g color_adjectives))
                    \<and> returns_copy g (get_size_adjectives v g)
                          (dict_keys (dict_at g size_adjectives))
                    \<and> returns_copy g (get_semantic_shapes v g) (dict_values (dict_at g nouns))
                    \<and> returns_copy g (get_semantic_colors v g)
                          (dict_values (dict_at g color_adjectives)))"
    using v t c i g by blast
qed


lemmas example_binding_defs =
  example_intransitive_verbs_def example_transitive_verbs_def example_adverbs_def
  example_noun_binding_def example_color_adjectives_def example_size_adjectives_def
  example_clashing_verbs_def

lemmas dict_eval = dict_keys_def dict_of_def DAList.update.rep_eq DAList.empty.rep_eq

theorem Vocabulary_init_fails_iff_shared_word_witness:
  "\<not> shared_word (category_keys 0 1 2 3 4 5 example_store)
   \<and> dicts_allocated example_store = 7
   \<and> (\<exists>v h'. Vocabulary_init 0 1 2 3 4 5 example_store = Inr (v, h')
        \<and> to_representation v h'
            = ([(''intransitive_verbs'', 0), (''transitive_verbs'', 1), (''nouns'', 3),
                (''adverbs'', 2), (''color_adjectives'', 4), (''size_adjectives'', 5)], h')
        \<and> category_sets v h'
            = [[''walk''], [''push'', ''pull''],
               [''cautiously'', ''while spinning'', ''while zigzagging'', ''hesitantly''],
               [''circle'', ''square'', ''cylinder''],
               [''red'', ''green'', ''blue'', ''yellow''], [''small'', ''big'']]
        \<and> category_sets v
              (client_run v [Call_get_nouns, Append_to_list 3 ''ball'', Call_to_representation,
                             Call_get_semantic_colors] h')
            = category_sets v h'
        \<and> returns_copy h' (get_nouns v h') [''circle'', ''square'', ''cylinder''])
   \<and> shared_word (category_keys 0 6 2 3 4 5 example_store)
   \<and> (\<exists>e. Vocabulary_init 0 6 2 3 4 5 example_store = Inl e)"
proof -
  have n: "\<not> shared_word (category_keys 0 1 2 3 4 5 example_store)"
    by (simp add: category_keys_def shared_word_Cons shared_word_Nil example_store_def
        example_binding_defs dict_eval)
  have a: "\<forall>r \<in> {0, 1, 2, 3, 4, 5::nat}. r < dicts_allocated example_store"
    by (simp add: example_store_def)
  have k: "category_keys 0 1 2 3 4 5 example_store
           = [[''walk''], [''push'', ''pull''],
              [''cautiously'', ''while spinning'', ''while zigzagging'', ''hesitantly''],
              [''circle'', ''square'', ''cylinder''],
              [''red'', ''green'', ''blue'', ''yellow''], [''small'', ''big'']]"
    by (simp add: category_keys_def example_store_def example_binding_defs dict_eval)
  have c: "shared_word (category_keys 0 6 2 3 4 5 example_store)"
    by (simp add: category_keys_def shared_word_Cons shared_word_Nil example_store_def
        example_binding_defs dict_eval)
  note t1 = Vocabulary_init_fails_iff_shared_word[of 0 1 2 3 4 5 example_store]
  note t2 = Vocabulary_init_fails_iff_shared_word[of 0 6 2 3 4 5 example_store]
  from t1 n a obtain v h' where v: "Vocabulary_init 0 1 2 3 4 5 example_store = Inr (v, h')"
      "to_representation v h'
            = ([(''intransitive_verbs'', 0), (''transitive_verbs'', 1), (''nouns'', 3),
                (''adverbs'', 2), (''color_adjectives'', 4), (''size_adjectives'', 5)], h')"
      "category_sets v h' = category_keys 0 1 2 3 4 5 example_store"
      "\<And>actions. category_sets v (client_run v actions h') = category_sets v h'"
      "\<And>g. returns_copy g (get_nouns v g) (dict_keys (dict_at g 3))"
    by blast
  have "dict_keys (dict_at h' 3) = [''circle'', ''square'', ''cylinder'']"
    using v(2,3) k by (simp add: category_sets_def category_keys_def to_representation_def)
  then have r: "returns_copy h' (get_nouns v h') [''circle'', ''square'', ''cylinder'']"
    using v(5)[of h'] by simp
  have ok: "\<exists>v h'. Vocabulary_init 0 1 2 3 4 5 example_store = Inr (v, h')
        \<and> to_representation v h'
            = ([(''intransitive_verbs'', 0), (''transitive_verbs'', 1), (''nouns'', 3),
                (''adverbs'', 2), (''color_adjectives'', 4), (''size_adjectives'', 5)], h')
        \<and> category_sets v h'
            = [[''walk''], [''push'', ''pull''],
               [''cautiously'', ''while spinning'', ''while zigzagging'', ''hesitantly''],
               [''circle'', ''square'', ''cylinder''],
               [''red'', ''green'', ''blue'', ''yellow''], [''small'', ''big'']]
        \<and> category_sets v
              (client_run v [Call_get_nouns, Append_to_list 3 ''ball'', Call_to_representation,
                             Call_get_semantic_colors] h')
            = category_sets v h'
        \<and> returns_copy h' (get_nouns v h') [''circle'', ''square'', ''cylinder'']"
    using v(1,2,3,4) k r by auto
  have bad: "\<exists>e. Vocabulary_init 0 6 2 3 4 5 example_store = Inl e"
    using t2 c by blast
  have d: "dicts_allocated example_store = 7" by (simp add: example_store_def)
  show ?thesis using n d ok c bad by blast
qed

text \<open>
  The claim as stated has the category sets immutable after the construction. The
  object shares its dictionaries: after a successful construction from the store of the
  six bindings, \<^verbatim>\<open>to_representation\<close> returns the reference 3 of the nouns, and
  adding the key "walk" to that dictionary changes the nouns of the vocabulary, which
  \<^verbatim>\<open>get_nouns\<close> then returns with "walk" among them (a word of the intransitive
  verbs as well).
\<close>

theorem Vocabulary_shared_dictionary_counterexample:
  "(case Vocabulary_init 0 1 2 3 4 5 example_store of
      Inl e \<Rightarrow> False
    | Inr (v, h') \<Rightarrow>
        fst (to_representation v h')
          = [(''intransitive_verbs'', 0), (''transitive_verbs'', 1), (''nouns'', 3),
             (''adverbs'', 2), (''color_adjectives'', 4), (''size_adjectives'', 5)]
        \<and> category_sets v h'
            = [[''walk''], [''push'', ''pull''],
               [''cautiously'', ''while spinning'', ''while zigzagging'', ''hesitantly''],
               [''circle'', ''square'', ''cylinder''],
               [''red'', ''green'', ''blue'', ''yellow''], [''small'', ''big'']]
        \<and> category_sets v (dict_setitem 3 ''walk'' ''circle'' h')
            = [[''walk''], [''push'', ''pull''],
               [''cautiously'', ''while spinning'', ''while zigzagging'', ''hesitantly''],
               [''circle'', ''square'', ''cylinder'', ''walk''],
               [''red'', ''green'', ''blue'', ''yellow''], [''small'', ''big'']]
        \<and> category_sets v (dict_setitem 3 ''walk'' ''circle'' h') \<noteq> category_sets v h'
        \<and> list_at (snd (get_nouns v (dict_setitem 3 ''walk'' ''circle'' h')))
             (fst (get_nouns v (dict_setitem 3 ''walk'' ''circle'' h')))
            = [''circle'', ''square'', ''cylinder'', ''walk''])"
  by code_simp

subsection \<open>The round-robin reordering\<close>

lemma next_mode_cycle: "next_mode (next_mode (next_mode m)) = m"
  by (cases m) simp_all

lemma round_robin_spec_skip_mode:
  assumes "first_in_mode n matching remaining m = None"
  shows "round_robin_spec n matching remaining m
         = round_robin_spec n matching remaining (next_mode m)"
  using assms
  by (simp add: round_robin_spec.simps[of n matching remaining m]
      round_robin_spec.simps[of n matching remaining "next_mode m"]
      next_emission_def next_mode_cycle split: option.splits)

lemma round_robin_spec_emit:
  assumes "first_in_mode n matching remaining m = Some p"
  shows "round_robin_spec n matching remaining m
         = p # round_robin_spec n matching (remaining - {p}) (next_mode m)"
  using assms
  by (simp add: round_robin_spec.simps[of n matching remaining m] next_emission_def)

lemma round_robin_spec_done:
  assumes "\<forall>m. first_in_mode n matching remaining m = None"
  shows "round_robin_spec n matching remaining m = []"
  using assms
  by (simp add: round_robin_spec.simps[of n matching remaining m] next_emission_def)

lemma sorted_reverse_by_flag_length:
  "length (sorted_reverse_by_flag flags indices) = length indices"
  by (simp add: sorted_reverse_by_flag_def sum_length_filter_compl)

lemma sorted_reverse_by_flag_set:
  "set (sorted_reverse_by_flag flags indices) = set indices"
  by (auto simp: sorted_reverse_by_flag_def)

lemma sorted_reverse_by_flag_earlier:
  assumes c: "c < n" and p: "sorted_reverse_by_flag flags [0..<n] ! c = p"
    and fp: "flags ! p" and q: "q < p" and fq: "flags ! q"
  shows "\<exists>j < c. sorted_reverse_by_flag flags [0..<n] ! j = q"
proof -
  let ?A = "filter (\<lambda>i. flags ! i) [0..<n]"
  let ?B = "filter (\<lambda>i. \<not> flags ! i) [0..<n]"
  have arr: "sorted_reverse_by_flag flags [0..<n] = ?A @ ?B"
    by (simp add: sorted_reverse_by_flag_def)
  have len: "length (?A @ ?B) = n" using sorted_reverse_by_flag_length[of flags "[0..<n]"] arr by simp
  have cA: "c < length ?A"
  proof (rule ccontr)
    assume "\<not> c < length ?A"
    then have "(?A @ ?B) ! c = ?B ! (c - length ?A)" by (simp add: nth_append)
    moreover have "c - length ?A < length ?B" using c len \<open>\<not> c < length ?A\<close> by simp
    ultimately have "(?A @ ?B) ! c \<in> set ?B" using nth_mem by metis
    then show False using p fp arr by simp
  qed
  then have pA: "?A ! c = p" using p arr by (simp add: nth_append)
  then have "p \<in> set ?A" using cA nth_mem by metis
  then have "p < n" by simp
  then have "q \<in> set ?A" using q fq by simp
  then have "\<exists>j<length ?A. ?A ! j = q" unfolding in_set_conv_nth by blast
  then obtain j where j: "j < length ?A" "?A ! j = q" by blast
  have srt: "sorted_wrt (<) ?A" by (rule sorted_wrt_filter) simp
  have "j < c"
  proof (rule ccontr)
    assume "\<not> j < c"
    then have "c \<le> j" by simp
    then have "?A ! c \<le> ?A ! j"
      using srt j(1) by (simp add: sorted_nth_mono strict_sorted_imp_sorted)
    then show False using pA j(2) q by simp
  qed
  moreover have "(?A @ ?B) ! j = q" using j by (simp add: nth_append)
  ultimately show ?thesis using arr by auto
qed

lemma cursor_at_end_no_match:
  assumes inv: "cursors_passed n flags idx remaining" and e: "n \<le> idx m"
  shows "first_in_mode n (\<lambda>m i. flags m ! i) remaining m = None"
proof -
  have "\<not> (q \<in> remaining \<and> flags m ! q)" if "q < n" for q
  proof -
    have "q \<in> set (sorted_reverse_by_flag (flags m) [0..<n])"
      using that by (simp add: sorted_reverse_by_flag_set)
    then obtain j where j: "j < n" "sorted_reverse_by_flag (flags m) [0..<n] ! j = q"
      by (auto simp: in_set_conv_nth sorted_reverse_by_flag_length)
    then have "j < idx m" using e by simp
    then show ?thesis using inv j unfolding cursors_passed_def by blast
  qed
  then show ?thesis by (simp add: first_in_mode_None)
qed

lemma cursor_hit_is_first:
  assumes inv: "cursors_passed n flags idx remaining" and c: "idx m < n"
    and p: "sorted_reverse_by_flag (flags m) [0..<n] ! idx m = p"
    and mem: "p \<in> remaining" and fp: "flags m ! p"
  shows "first_in_mode n (\<lambda>m i. flags m ! i) remaining m = Some p"
proof -
  have "p \<in> set (sorted_reverse_by_flag (flags m) [0..<n])"
    using c p nth_mem[of "idx m" "sorted_reverse_by_flag (flags m) [0..<n]"]
    by (simp add: sorted_reverse_by_flag_length)
  then have pn: "p < n" by (simp add: sorted_reverse_by_flag_set)
  have "\<not> (q \<in> remaining \<and> flags m ! q)" if qp: "q < p" for q
  proof
    assume h: "q \<in> remaining \<and> flags m ! q"
    then have fq: "flags m ! q" by simp
    obtain j where j: "j < idx m" "sorted_reverse_by_flag (flags m) [0..<n] ! j = q"
      using sorted_reverse_by_flag_earlier[OF c p fp qp fq] by blast
    then have "j < n" using c by simp
    then show False using inv j h unfolding cursors_passed_def by blast
  qed
  then show ?thesis using pn mem fp by (simp add: first_in_mode_Some)
qed

lemma cursors_passed_skip:
  assumes inv: "cursors_passed n flags idx remaining"
    and s: "sorted_reverse_by_flag (flags m) [0..<n] ! idx m \<notin> remaining
            \<or> \<not> flags m ! (sorted_reverse_by_flag (flags m) [0..<n] ! idx m)"
  shows "cursors_passed n flags (idx(m := idx m + 1)) remaining"
  unfolding cursors_passed_def
proof (intro allI impI)
  fix m' j
  assume h: "j < (idx(m := idx m + 1)) m' \<and> j < n"
  show "sorted_reverse_by_flag (flags m') [0..<n] ! j \<notin> remaining
        \<or> \<not> flags m' ! (sorted_reverse_by_flag (flags m') [0..<n] ! j)"
  proof (cases "m' = m \<and> j = idx m")
    case True
    then show ?thesis using s by simp
  next
    case False
    then have "j < idx m'" using h by (auto split: if_splits)
    then show ?thesis using inv h unfolding cursors_passed_def by blast
  qed
qed

lemma cursors_passed_remove:
  assumes inv: "cursors_passed n flags idx remaining"
  shows "cursors_passed n flags idx (remaining - {p})"
  using inv unfolding cursors_passed_def by blast

lemma cursors_passed_emit:
  assumes inv: "cursors_passed n flags idx remaining"
    and p: "sorted_reverse_by_flag (flags m) [0..<n] ! idx m = p"
  shows "cursors_passed n flags (idx(m := idx m + 1)) (remaining - {p})"
proof -
  have "cursors_passed n flags idx (remaining - {p})" using inv by (rule cursors_passed_remove)
  moreover have "sorted_reverse_by_flag (flags m) [0..<n] ! idx m \<notin> remaining - {p}"
    using p by simp
  ultimately show ?thesis using cursors_passed_skip by blast
qed

lemma round_robin_refines_spec:
  assumes "arr = (\<lambda>m. sorted_reverse_by_flag (flags m) [0..<n])"
    and "cursors_passed n flags idx remaining"
  shows "round_robin arr flags idx remaining mode
         = round_robin_spec n (\<lambda>m i. flags m ! i) remaining mode"
  using assms
proof (induction arr flags idx remaining mode rule: round_robin.induct)
  case (1 arr flags idx remaining mode)
  note arr = "1.prems"(1) and inv = "1.prems"(2)
  have len: "length (arr m) = n" for m by (simp add: arr sorted_reverse_by_flag_length)
  let ?M = "\<lambda>m i. flags m ! i"
  show ?case
  proof (cases "idx Color < n \<or> idx Object < n \<or> idx Size < n")
    case False
    then have "n \<le> idx m" for m by (cases m) auto
    then have "\<forall>m. first_in_mode n ?M remaining m = None"
      using cursor_at_end_no_match[OF inv] by blast
    then have "round_robin_spec n ?M remaining mode = []" by (rule round_robin_spec_done)
    moreover have "round_robin arr flags idx remaining mode = []"
      using False by (subst round_robin.simps) (simp add: len)
    ultimately show ?thesis by simp
  next
    case cond: True
    then have cond': "idx Color < length (arr Color) \<or> idx Object < length (arr Object)
         \<or> idx Size < length (arr Size)" by (simp add: len)
    show ?thesis
    proof (cases "n \<le> idx mode")
      case True
      then have e: "length (arr mode) \<le> idx mode" by (simp add: len)
      have "round_robin arr flags idx remaining mode
            = round_robin arr flags idx remaining (next_mode mode)"
        using cond' e by (subst round_robin.simps) simp
      also have "\<dots> = round_robin_spec n ?M remaining (next_mode mode)"
        using "1.IH"(1)[OF cond' e arr inv] .
      also have "\<dots> = round_robin_spec n ?M remaining mode"
        using round_robin_spec_skip_mode[OF cursor_at_end_no_match[OF inv True]] by simp
      finally show ?thesis .
    next
      case False
      then have c: "idx mode < n" by simp
      have ne: "\<not> length (arr mode) \<le> idx mode" using c by (simp add: len)
      define p where "p = arr mode ! idx mode"
      have p': "sorted_reverse_by_flag (flags mode) [0..<n] ! idx mode = p"
        by (simp add: p_def arr)
      show ?thesis
      proof (cases "p \<notin> remaining \<or> \<not> flags mode ! p")
        case True
        have inv': "cursors_passed n flags (idx(mode := idx mode + 1)) remaining"
          using cursors_passed_skip[OF inv] True p' by simp
        have "round_robin arr flags idx remaining mode
              = round_robin arr flags (idx(mode := idx mode + 1)) remaining mode"
          using cond' ne True by (subst round_robin.simps) (simp add: p_def Let_def)
        also have "\<dots> = round_robin_spec n ?M remaining mode"
          using "1.IH"(2)[OF cond' ne p_def True arr inv'] .
        finally show ?thesis .
      next
        case False
        then have mem: "p \<in> remaining" and fp: "flags mode ! p" by simp_all
        have inv': "cursors_passed n flags (idx(mode := idx mode + 1)) (remaining - {p})"
          using cursors_passed_emit[OF inv p'] .
        have first: "first_in_mode n ?M remaining mode = Some p"
          using cursor_hit_is_first[OF inv c p' mem fp] .
        have "round_robin arr flags idx remaining mode
              = p # round_robin arr flags (idx(mode := idx mode + 1)) (remaining - {p})
                      (next_mode mode)"
          using cond' ne False by (subst round_robin.simps) (simp add: p_def Let_def)
        also have "\<dots> = p # round_robin_spec n ?M (remaining - {p}) (next_mode mode)"
          using "1.IH"(3)[OF cond' ne p_def False arr inv'] by (simp only:)
        also have "\<dots> = round_robin_spec n ?M remaining mode"
          using round_robin_spec_emit[OF first] by simp
        finally show ?thesis .
      qed
    qed
  qed
qed

lemma round_robin_spec_set_distinct:
  "set (round_robin_spec n matching remaining m)
     = {i. i < n \<and> i \<in> remaining \<and> (\<exists>m'. matching m' i)}
   \<and> distinct (round_robin_spec n matching remaining m)"
proof (induction n matching remaining m rule: round_robin_spec.induct)
  case (1 n matching remaining m)
  show ?case
  proof (cases "next_emission n matching remaining m")
    case None
    then have three: "first_in_mode n matching remaining m = None"
        "first_in_mode n matching remaining (next_mode m) = None"
        "first_in_mode n matching remaining (next_mode (next_mode m)) = None"
      by (auto simp: next_emission_def split: option.splits)
    have "first_in_mode n matching remaining m' = None" for m'
      using three by (cases m; cases m') simp_all
    then have "\<forall>m'. first_in_mode n matching remaining m' = None" by blast
    then have "{i. i < n \<and> i \<in> remaining \<and> (\<exists>m'. matching m' i)} = {}"
      by (auto simp: first_in_mode_None)
    then show ?thesis using None by (simp add: round_robin_spec.simps[of n matching remaining m])
  next
    case (Some a)
    obtain m' p where a: "a = (m', p)" by (cases a)
    have pm: "p < n \<and> p \<in> remaining \<and> matching m' p"
      using next_emission_Some Some a by metis
    have ih: "set (round_robin_spec n matching (remaining - {p}) (next_mode m'))
            = {i. i < n \<and> i \<in> remaining - {p} \<and> (\<exists>m'. matching m' i)}
          \<and> distinct (round_robin_spec n matching (remaining - {p}) (next_mode m'))"
      using "1.IH"[OF Some a[symmetric]] .
    have eq: "round_robin_spec n matching remaining m
              = p # round_robin_spec n matching (remaining - {p}) (next_mode m')"
      using Some a by (simp add: round_robin_spec.simps[of n matching remaining m])
    show ?thesis unfolding eq using ih pm by auto
  qed
qed

lemma option_matches_nth:
  "i < length opts \<Longrightarrow>
   option_matches opts q colors nouns m ! i = query_match opts q colors nouns m i"
  by (auto simp: option_matches_def query_match_def)

lemma first_in_mode_cong:
  assumes "\<forall>m i. i < n \<longrightarrow> matching m i = matching' m i"
  shows "first_in_mode n matching remaining m = first_in_mode n matching' remaining m"
  unfolding first_in_mode_def using assms by (intro find_cong) auto

lemma next_emission_cong:
  assumes "\<forall>m i. i < n \<longrightarrow> matching m i = matching' m i"
  shows "next_emission n matching remaining m = next_emission n matching' remaining m"
proof -
  have f: "first_in_mode n matching remaining m' = first_in_mode n matching' remaining m'" for m'
    using first_in_mode_cong[OF assms] .
  show ?thesis unfolding next_emission_def f ..
qed

lemma round_robin_spec_cong:
  assumes "\<forall>m i. i < n \<longrightarrow> matching m i = matching' m i"
  shows "round_robin_spec n matching remaining m = round_robin_spec n matching' remaining m"
  using assms
proof (induction n matching remaining m rule: round_robin_spec.induct)
  case (1 n matching remaining m)
  have ne: "next_emission n matching remaining m = next_emission n matching' remaining m"
    using next_emission_cong[OF "1.prems"] .
  show ?case
  proof (cases "next_emission n matching remaining m")
    case None
    then show ?thesis using ne
      by (simp add: round_robin_spec.simps[of n matching remaining m]
          round_robin_spec.simps[of n matching' remaining m])
  next
    case (Some a)
    obtain m' p where a: "a = (m', p)" by (cases a)
    have ih: "round_robin_spec n matching (remaining - {p}) (next_mode m')
          = round_robin_spec n matching' (remaining - {p}) (next_mode m')"
      using "1.IH"[OF Some a[symmetric] "1.prems"] .
    have e1: "next_emission n matching remaining m = Some (m', p)" using Some a by simp
    have e2: "next_emission n matching' remaining m = Some (m', p)" using e1 ne by simp
    have l: "round_robin_spec n matching remaining m
             = p # round_robin_spec n matching (remaining - {p}) (next_mode m')"
      by (simp add: round_robin_spec.simps[of n matching remaining m] e1)
    have r: "round_robin_spec n matching' remaining m
             = p # round_robin_spec n matching' (remaining - {p}) (next_mode m')"
      by (simp add: round_robin_spec.simps[of n matching' remaining m] e2)
    show ?thesis unfolding l r ih ..
  qed
qed

lemma sorted_option_indices_spec:
  "sorted_option_indices opts q colors nouns
   = round_robin_spec (length opts) (query_match opts q colors nouns) {0..<length opts} Color"
proof -
  let ?n = "length opts"
  let ?flags = "option_matches opts q colors nouns"
  have arr: "indices_indexes_array opts q colors nouns
             = (\<lambda>m. sorted_reverse_by_flag (?flags m) [0..<?n])"
    by (rule ext) (simp add: indices_indexes_array_def)
  have inv: "cursors_passed ?n ?flags (\<lambda>_. 0) {0..<?n}"
    by (simp add: cursors_passed_def)
  have "sorted_option_indices opts q colors nouns
        = round_robin_spec ?n (\<lambda>m i. ?flags m ! i) {0..<?n} Color"
    unfolding sorted_option_indices_def using round_robin_refines_spec[OF arr inv] .
  also have "\<dots> = round_robin_spec ?n (query_match opts q colors nouns) {0..<?n} Color"
    by (rule round_robin_spec_cong) (simp add: option_matches_nth)
  finally show ?thesis .
qed

text \<open>
  Claim C3. The generator yields the options at the indices that the loop returns. This
  index list is the round-robin order of the specification, started in mode colour with
  every option remaining; no index occurs twice in it; and its indices are exactly those
  of the options that match at least one of the three criteria, so an option that
  matches none is never yielded.
\<close>

theorem sort_description_words_round_robin:
  "sort_description_words_by_query_match opts q colors nouns
     = map (\<lambda>i. opts ! i) (sorted_option_indices opts q colors nouns)
   \<and> sorted_option_indices opts q colors nouns
     = round_robin_spec (length opts) (query_match opts q colors nouns) {0..<length opts} Color
   \<and> distinct (sorted_option_indices opts q colors nouns)
   \<and> set (sorted_option_indices opts q colors nouns)
     = {i. i < length opts \<and> (\<exists>m. query_match opts q colors nouns m i)}"
proof -
  have s: "sorted_option_indices opts q colors nouns
     = round_robin_spec (length opts) (query_match opts q colors nouns) {0..<length opts} Color"
    by (rule sorted_option_indices_spec)
  have d: "set (round_robin_spec (length opts) (query_match opts q colors nouns)
                  {0..<length opts} Color)
      = {i. i < length opts \<and> i \<in> {0..<length opts}
            \<and> (\<exists>m. query_match opts q colors nouns m i)}
     \<and> distinct (round_robin_spec (length opts) (query_match opts q colors nouns)
                  {0..<length opts} Color)"
    by (rule round_robin_spec_set_distinct)
  have "{i. i < length opts \<and> i \<in> {0..<length opts}
            \<and> (\<exists>m. query_match opts q colors nouns m i)}
        = {i. i < length opts \<and> (\<exists>m. query_match opts q colors nouns m i)}"
    by auto
  then show ?thesis using s d by (simp add: sort_description_words_by_query_match_def)
qed

theorem sort_description_words_round_robin_witness:
  "sorted_option_indices example_options [''small'', ''red'', ''circle''] example_colors
       example_nouns = [1, 0, 3, 2]
   \<and> round_robin_spec (length example_options)
        (query_match example_options [''small'', ''red'', ''circle''] example_colors
           example_nouns) {0..<length example_options} Color = [1, 0, 3, 2]
   \<and> sort_description_words_by_query_match example_options [''small'', ''red'', ''circle'']
        example_colors example_nouns
       = [example_options ! 1, example_options ! 0, example_options ! 3, example_options ! 2]"
proof -
  have c: "sorted_option_indices example_options [''small'', ''red'', ''circle'']
       example_colors example_nouns = [1, 0, 3, 2]"
    by code_simp
  note t = sort_description_words_round_robin[of example_options
      "[''small'', ''red'', ''circle'']" example_colors example_nouns]
  have s: "round_robin_spec (length example_options)
        (query_match example_options [''small'', ''red'', ''circle''] example_colors
           example_nouns) {0..<length example_options} Color = [1, 0, 3, 2]"
    using t c by (simp only:)
  have m: "sort_description_words_by_query_match example_options [''small'', ''red'', ''circle'']
        example_colors example_nouns
       = map (\<lambda>i. example_options ! i) [1, 0, 3, 2]"
    using t c by (simp only:)
  show ?thesis using c s m by simp
qed

subsection \<open>The situation codec\<close>



































lemma no_agent_flag_set_channel:
  assumes "no_agent_flag grid" and "k \<noteq> 3"
  shows "no_agent_flag (set_channel grid r c k v)"
proof -
  have cell: "3 < length ((grid ! r ! c)[k := v]) \<and> (grid ! r ! c)[k := v] ! 3 = 0"
    if "r < length grid" "c < length (grid ! r)"
  proof -
    have "grid ! r \<in> set grid" using that(1) by simp
    moreover have "grid ! r ! c \<in> set (grid ! r)" using that(2) by simp
    ultimately have "3 < length (grid ! r ! c) \<and> grid ! r ! c ! 3 = 0"
      using assms(1) unfolding no_agent_flag_def by blast
    then show ?thesis using assms(2) by simp
  qed
  show ?thesis
    unfolding no_agent_flag_def set_channel_def
  proof (intro ballI)
    fix cells cell
    assume a: "cells \<in> set (grid[r := (grid ! r)[c := (grid ! r ! c)[k := v]]])"
      and b: "cell \<in> set cells"
    show "3 < length cell \<and> cell ! 3 = 0"
    proof (cases "r < length grid")
      case False
      then have "cells \<in> set grid" using a by (simp add: list_update_beyond)
      then show ?thesis using assms(1) b unfolding no_agent_flag_def by blast
    next
      case True
      have "cells \<in> insert ((grid ! r)[c := (grid ! r ! c)[k := v]]) (set grid)"
        using a set_update_subset_insert by fastforce
      then show ?thesis
      proof
        assume "cells \<in> set grid"
        then show ?thesis using assms(1) b unfolding no_agent_flag_def by blast
      next
        assume e: "cells = (grid ! r)[c := (grid ! r ! c)[k := v]]"
        show ?thesis
        proof (cases "c < length (grid ! r)")
          case False
          then have "cells = grid ! r" using e by (simp add: list_update_beyond)
          then have "cells \<in> set grid" using True by simp
          then show ?thesis using assms(1) b unfolding no_agent_flag_def by blast
        next
          case c: True
          have "cell \<in> insert ((grid ! r ! c)[k := v]) (set (grid ! r))"
            using b e set_update_subset_insert by fastforce
          then show ?thesis
          proof
            assume "cell = (grid ! r ! c)[k := v]"
            then show ?thesis using cell[OF True c] by simp
          next
            assume "cell \<in> set (grid ! r)"
            moreover have "grid ! r \<in> set grid" using True by simp
            ultimately show ?thesis using assms(1) unfolding no_agent_flag_def by blast
          qed
        qed
      qed
    qed
  qed
qed

lemma no_agent_flag_place_object:
  assumes "no_agent_flag grid"
    and "place_object_all color2idx noun2idx True n grid po = Inr grid'"
  shows "no_agent_flag grid'"
  using assms
  by (auto simp: place_object_all_def no_agent_flag_set_channel
      split: option.splits if_splits prod.splits)

lemma no_agent_flag_place_objects:
  assumes "no_agent_flag grid"
    and "place_objects_all color2idx noun2idx True n grid objs = Inr grid'"
  shows "no_agent_flag grid'"
  using assms
proof (induction objs arbitrary: grid)
  case Nil
  then show ?case by simp
next
  case (Cons po objs)
  from Cons.prems(2) obtain g1 where
    p: "place_object_all color2idx noun2idx True n grid po = Inr g1"
    and r: "place_objects_all color2idx noun2idx True n g1 objs = Inr grid'"
    by (auto split: sum.splits)
  show ?case using Cons.IH[OF no_agent_flag_place_object[OF Cons.prems(1) p] r] .
qed

lemma no_agent_flag_initial:
  "no_agent_flag ((replicate n (replicate n (replicate 8 0)))
      [r := (replicate n (replicate n (replicate 8 0)) ! r)[c := replicate 6 0 @ [1, d]]])"
proof -
  define z where "z = replicate n (replicate n (replicate 8 (0::int)))"
  have z: "no_agent_flag z" by (auto simp: z_def no_agent_flag_def)
  have "no_agent_flag (z[r := (z ! r)[c := replicate 6 0 @ [1, d]]])"
    unfolding no_agent_flag_def
  proof (intro ballI)
    fix cells cell
    assume a: "cells \<in> set (z[r := (z ! r)[c := replicate 6 0 @ [1, d]]])"
      and b: "cell \<in> set cells"
    have "cells \<in> insert ((z ! r)[c := replicate 6 0 @ [1, d]]) (set z)"
      using a set_update_subset_insert by fastforce
    then show "3 < length cell \<and> cell ! 3 = 0"
    proof
      assume "cells \<in> set z"
      then show ?thesis using z b unfolding no_agent_flag_def by blast
    next
      assume e: "cells = (z ! r)[c := replicate 6 0 @ [1, d]]"
      have "cell \<in> insert (replicate 6 0 @ [1, d]) (set (z ! r))"
        using b e set_update_subset_insert by fastforce
      then show ?thesis
      proof
        assume "cell = replicate 6 0 @ [1, d]"
        then show ?thesis by (simp add: nth_append)
      next
        assume c: "cell \<in> set (z ! r)"
        show ?thesis
        proof (cases "r < n")
          case True
          then show ?thesis using c by (auto simp: z_def)
        next
          case False
          have "z[r := (z ! r)[c := replicate 6 0 @ [1, d]]] = z"
            using False by (simp add: z_def list_update_beyond)
          then have "cells \<in> set z" using a by simp
          then show ?thesis using z b unfolding no_agent_flag_def by blast
        qed
      qed
    qed
  qed
  then show ?thesis by (simp add: z_def)
qed

lemma no_agent_flag_rows:
  assumes "no_agent_flag grid"
  shows "\<forall>s \<in> set (add_positional_information_to_grid grid). s ! 3 = 0"
proof
  fix s assume "s \<in> set (add_positional_information_to_grid grid)"
  then obtain r c where r: "r < length grid" and c: "c < length (grid ! r)"
    and s: "s = grid ! r ! c @ [int r + 1, int c + 1]"
    by (auto simp: add_positional_information_to_grid_def)
  have "grid ! r \<in> set grid" using r by simp
  moreover have "grid ! r ! c \<in> set (grid ! r)" using c by simp
  ultimately have "3 < length (grid ! r ! c) \<and> grid ! r ! c ! 3 = 0"
    using assms unfolding no_agent_flag_def by blast
  then show "s ! 3 = 0" unfolding s by (simp add: nth_append)
qed

text \<open>
  In the dense scheme with boxes no vector of an encoding has its slot 3 set, whatever
  the situation: the agent's flag is in the channel 6. The decoder finds no agent.
\<close>

lemma all_boxes_no_agent:
  assumes "parse_sparse_situation rep grid_size color2idx noun2idx ''all'' True = Inr (Some cells)"
  shows "decode_agent 1 cells = None"
proof -
  obtain r c g' where p: "place_objects_all color2idx noun2idx True (nat grid_size)
        ((replicate (nat grid_size) (replicate (nat grid_size) (replicate 8 0)))
           [r := (replicate (nat grid_size) (replicate (nat grid_size) (replicate 8 0)) ! r)
              [c := replicate 6 0 @ [1, rep_agent_direction rep]]])
        (rep_placed_objects rep) = Inr g'"
    and cells: "cells = add_positional_information_to_grid g'"
    using assms
    by (auto simp: parse_sparse_situation_def Let_def split: if_splits option.splits sum.splits)
  have "no_agent_flag g'"
    using no_agent_flag_place_objects[OF no_agent_flag_initial p] .
  then have "\<forall>s \<in> set cells. s ! 3 = 0" unfolding cells by (rule no_agent_flag_rows)
  then have "find (\<lambda>s. s ! 3 \<noteq> 0) cells = None" by (simp add: find_None_iff)
  then show ?thesis by (simp add: decode_agent_def)
qed




end
